theory Spec2Isabelle
  imports Complex_Main
begin

section \<open>Values and exceptions of the script\<close>

text \<open>
  \<^verbatim>\<open>LAS_CSV_Converter.py\<close> converts LAS point files to CSV and merges heights returned
  by a geodetic web service back into a LAS file. The embedding below follows the
  script function by function. Exceptions are values: \<open>IndexError\<close>, \<open>ValueError\<close> and
  \<open>AttributeError\<close> are the Python exceptions the statements of the script can raise,
  \<open>RequestException\<close> stands for an exception of the \<open>requests\<close> library and
  \<open>LaspyException\<close> is the exception of the LAS library;
  \<open>ConfigurationError\<close> and \<open>AlignmentError\<close> are the error kinds named by the design
  document, which no statement of the script raises.
\<close>

datatype error =
    IndexError | ValueError | AttributeError | RequestException | LaspyException
  | ConfigurationError | AlignmentError

text \<open>
  In Python's exception hierarchy \<open>IndexError\<close> is a subclass of the built-in
  \<open>LookupError\<close>; none of the other exceptions above is.
\<close>

definition is_LookupError :: "error \<Rightarrow> bool" where
  "is_LookupError e = (e = IndexError)"

text \<open>
  Numbers. The floats of Python and of numpy are 64-bit binary floats (IEEE 754
  binary64): a float is either finite, a real of the form \<open>m * 2 ^ q\<close> with
  \<open>\<bar>m\<bar> < 2 ^ 53\<close> and \<open>- 1074 \<le> q\<close>, of magnitude below \<open>2 ^ 1024\<close>, or one of \<open>inf\<close>,
  \<open>-inf\<close>, \<open>nan\<close>. The sign of a zero and the three non-finite values are not told apart.
\<close>

datatype npfloat = Finite real | NonFinite

datatype pynum = IntV int | FloatV npfloat

text \<open>
  Rounding to the nearest integer, a tie going to the even one: the rounding of the
  significand in the default mode of the format.
\<close>

definition round_half_even :: "real \<Rightarrow> int" where
  "round_half_even x =
     (let f = \<lfloor>x\<rfloor>; d = x - of_int f
      in if d < 1 / 2 then f else if 1 / 2 < d then f + 1 else if even f then f else f + 1)"

text \<open>
  The binary exponent of a positive real \<open>x\<close>, the \<open>e\<close> with \<open>2 ^ e \<le> x < 2 ^ (e + 1)\<close>,
  found by halving or doubling \<open>x\<close> at most \<open>n\<close> times. The \<open>1100\<close> steps used below reach
  every exponent of the format: a smaller \<open>x\<close> is rounded with the least exponent of the
  format in any case, and a larger one overflows.
\<close>

fun binary_exponent :: "nat \<Rightarrow> real \<Rightarrow> int" where
  "binary_exponent 0 x = 0"
| "binary_exponent (Suc n) x =
     (if 2 \<le> x then binary_exponent n (x / 2) + 1
      else if x < 1 then binary_exponent n (x * 2) - 1
      else 0)"

text \<open>
  \<open>double_of x\<close> is the real \<open>x\<close> rounded to 53 significant bits, with the spacing
  \<open>2 ^ (- 1074)\<close> of the subnormal floats as the finest one: the float that a literal like
  \<^verbatim>\<open>0.0001\<close> denotes, and the float an operation returns whose exact result is \<open>x\<close>,
  unless it overflows. \<open>binary64 x\<close> is the result of such an operation: \<open>inf\<close> where
  the rounded magnitude reaches \<open>2 ^ 1024\<close>.
\<close>

definition double_of :: "real \<Rightarrow> real" where
  "double_of x =
     (if x = 0 then 0
      else let e = binary_exponent 1100 \<bar>x\<bar>;
               q = max (e - 52) (- 1074);
               m = round_half_even (\<bar>x\<bar> / 2 powi q)
           in sgn x * (of_int m * 2 powi q))"

definition binary64 :: "real \<Rightarrow> npfloat" where
  "binary64 x = (if 2 ^ 1024 \<le> \<bar>double_of x\<bar> then NonFinite else Finite (double_of x))"

text \<open>
  The conversion of an integer attribute and the four operations, each returning the
  rounded exact result. An integer attribute of a LAS record has at most 32 bits, so that
  its conversion is exact. The second operand is a scale or an offset of the header, a
  finite float. A numpy float division by zero raises nothing: it yields \<open>inf\<close> or \<open>nan\<close>
  (with a warning), and every further operation on a non-finite value with a finite
  operand stays non-finite.
\<close>

fun as_float :: "pynum \<Rightarrow> npfloat" where
  "as_float (IntV i) = Finite (of_int i)"
| "as_float (FloatV f) = f"

fun fl_mul :: "npfloat \<Rightarrow> real \<Rightarrow> npfloat" where
  "fl_mul (Finite a) b = binary64 (a * b)"
| "fl_mul NonFinite b = NonFinite"

fun fl_add :: "npfloat \<Rightarrow> real \<Rightarrow> npfloat" where
  "fl_add (Finite a) b = binary64 (a + b)"
| "fl_add NonFinite b = NonFinite"

fun fl_sub :: "npfloat \<Rightarrow> real \<Rightarrow> npfloat" where
  "fl_sub (Finite a) b = binary64 (a - b)"
| "fl_sub NonFinite b = NonFinite"

fun fl_div :: "npfloat \<Rightarrow> real \<Rightarrow> npfloat" where
  "fl_div (Finite a) b = (if b = 0 then NonFinite else binary64 (a / b))"
| "fl_div NonFinite b = NonFinite"

section \<open>The scale/offset expressions\<close>

text \<open>
  \<open>decode\<close> is the expression \<^verbatim>\<open>( attribute * scale ) + offset\<close> of \<open>las_to_csv\<close>
  (lines 345, 347, 349); \<open>encode\<close> is the expression
  \<^verbatim>\<open>(new_heights[i] - z_offset) / z_scale\<close> of the batch merge (line 495), each
  operation in double precision. Neither looks at the sign of the scale, and \<open>encode\<close>
  has no rounding to an integer.
\<close>

definition decode :: "pynum \<Rightarrow> real \<Rightarrow> real \<Rightarrow> npfloat" where
  "decode attribute scale offset = fl_add (fl_mul (as_float attribute) scale) offset"

definition encode :: "npfloat \<Rightarrow> real \<Rightarrow> real \<Rightarrow> npfloat" where
  "encode v scale offset = fl_div (fl_sub v offset) scale"

text \<open>
  The encode of the design document, in its words: the same quotient, rounded to the
  nearest integer (\<open>round\<close> takes a tie upwards; no statement below rests on a tie). It
  has a value only where the quotient is finite. No statement of the script computes it.
\<close>

definition spec_encode :: "npfloat \<Rightarrow> real \<Rightarrow> real \<Rightarrow> int option" where
  "spec_encode v scale offset =
     (case encode v scale offset of Finite q \<Rightarrow> Some (round q) | NonFinite \<Rightarrow> None)"

section \<open>FileInfo and the LAS stream\<close>

record file_info =
  num_points :: nat
  x_offset :: real
  y_offset :: real
  z_offset :: real
  x_scale :: real
  y_scale :: real
  z_scale :: real
  header_size :: int
  attributes :: "string list"

text \<open>
  The stream a \<open>LASFileManager\<close> opens, as far as the script reads and writes it: the
  header's offset and scale triples, the names of the point format, the point records
  (\<open>points\<close>: each element is iterated again by the script, and each element of that
  is one record, a sequence of attribute values) and the three coordinate columns. The
  scales and offsets are the floats of the header. In the library the columns are views
  of the records; here they are fields of their own, and no function below reads the
  records after a column was assigned.
\<close>

record las_file =
  header_offset :: "real \<times> real \<times> real"
  header_scale :: "real \<times> real \<times> real"
  point_format :: "string list"
  points :: "pynum list list list"
  X :: "pynum list"
  Y :: "pynum list"
  Z :: "pynum list"

definition open_read_stream :: "las_file \<Rightarrow> file_info" where
  "open_read_stream readStream =
     (case header_offset readStream of (xo, yo, zo) \<Rightarrow>
      case header_scale readStream of (xs, ys, zs) \<Rightarrow>
        \<lparr> num_points = length (points readStream),
          x_offset = xo, y_offset = yo, z_offset = zo,
          x_scale = xs, y_scale = ys, z_scale = zs,
          header_size = int (length (point_format readStream)),
          attributes = point_format readStream \<rparr>)"

subsection \<open>FileInfo.get_header\<close>

text \<open>
  The loop of lines 157 to 162, with its counter and the header built so far. The
  attributes are names, strings already, so that \<^verbatim>\<open>str(att)\<close> is \<open>att\<close>.
\<close>

fun get_header_loop :: "int \<Rightarrow> string list \<Rightarrow> int \<Rightarrow> string \<Rightarrow> string" where
  "get_header_loop hsize [] index head = head"
| "get_header_loop hsize (att # atts) index head =
     (let index' = index + 1;
          head' = head @ att
      in get_header_loop hsize atts index'
           (if index' < hsize then head' @ '','' else head'))"

definition get_header :: "file_info \<Rightarrow> string" where
  "get_header fi = get_header_loop (header_size fi) (attributes fi) 0 ''''"

text \<open>The design document's header: the names joined by commas.\<close>

fun comma_join :: "string list \<Rightarrow> string" where
  "comma_join [] = ''''"
| "comma_join [a] = a"
| "comma_join (a # b # rest) = a @ '','' @ comma_join (b # rest)"

subsection \<open>las_to_csv\<close>

text \<open>
  The value written for one attribute (lines 344 to 351). \<^verbatim>\<open>attributes[index]\<close>
  raises \<open>IndexError\<close> when the record has more values than the schema has names.
\<close>

definition out_value :: "file_info \<Rightarrow> nat \<Rightarrow> pynum \<Rightarrow> error + pynum" where
  "out_value file_info index attribute =
     (if length (attributes file_info) \<le> index then Inl IndexError
      else if attributes file_info ! index = ''X''
        then Inr (FloatV (decode attribute (x_scale file_info) (x_offset file_info)))
      else if attributes file_info ! index = ''Y''
        then Inr (FloatV (decode attribute (y_scale file_info) (y_offset file_info)))
      else if attributes file_info ! index = ''Z''
        then Inr (FloatV (decode attribute (z_scale file_info) (z_offset file_info)))
      else Inr attribute)"

text \<open>
  The loop over the attributes of one record (lines 341 to 359). \<open>str\<close> is Python's
  rendering of a number, a parameter of the model.
\<close>

fun line_loop ::
  "(pynum \<Rightarrow> string) \<Rightarrow> file_info \<Rightarrow> pynum list \<Rightarrow> nat \<Rightarrow> string \<Rightarrow> error + string" where
  "line_loop str file_info [] index line = Inr line"
| "line_loop str file_info (attribute # rest) index line =
     (case out_value file_info index attribute of
        Inl e \<Rightarrow> Inl e
      | Inr outValue \<Rightarrow>
          (let line' = line @ str outValue;
               line'' = (if int index < header_size file_info - 1 then line' @ '','' else line')
           in line_loop str file_info rest (index + 1) line''))"

text \<open>
  The two loops over the records (lines 333 to 361). The output stream is the list of
  the strings written so far, one per call of \<open>write\<close>; an exception stops the run and
  leaves what was written. The progress messages go to the console and are no part of it.
\<close>

fun points_list_loop ::
  "(pynum \<Rightarrow> string) \<Rightarrow> file_info \<Rightarrow> pynum list list \<Rightarrow> string list
     \<Rightarrow> string list \<times> error option" where
  "points_list_loop str file_info [] outFile = (outFile, None)"
| "points_list_loop str file_info (pts # rest) outFile =
     (case line_loop str file_info pts 0 [] of
        Inl e \<Rightarrow> (outFile, Some e)
      | Inr line \<Rightarrow> points_list_loop str file_info rest (outFile @ [line @ [CHR 0x0A]]))"

fun points_loop ::
  "(pynum \<Rightarrow> string) \<Rightarrow> file_info \<Rightarrow> pynum list list list \<Rightarrow> string list
     \<Rightarrow> string list \<times> error option" where
  "points_loop str file_info [] outFile = (outFile, None)"
| "points_loop str file_info (points_list # rest) outFile =
     (case points_list_loop str file_info points_list outFile of
        (outFile', Some e) \<Rightarrow> (outFile', Some e)
      | (outFile', None) \<Rightarrow> points_loop str file_info rest outFile')"

definition las_to_csv :: "(pynum \<Rightarrow> string) \<Rightarrow> las_file \<Rightarrow> string list \<times> error option" where
  "las_to_csv str inFile =
     (let file_info = open_read_stream inFile
      in points_loop str file_info (points inFile) [get_header file_info @ [CHR 0x0A]])"

section \<open>The web service\<close>

subsection \<open>Parsing the reply of the batch call\<close>

text \<open>Python's \<^verbatim>\<open>s.split(sep)\<close> for a separator of one character.\<close>

fun py_split :: "char \<Rightarrow> string \<Rightarrow> string list" where
  "py_split sep [] = [[]]"
| "py_split sep (c # cs) =
     (if c = sep then [] # py_split sep cs
      else (case py_split sep cs of [] \<Rightarrow> [[c]] | w # ws \<Rightarrow> (c # w) # ws))"

text \<open>
  A numpy array of strings has fixed-width elements padded with NUL characters, so an
  element read back has lost its trailing NULs.
\<close>

definition np_str :: "string \<Rightarrow> string" where
  "np_str s = rev (dropWhile (\<lambda>c. c = CHR 0x00) (rev s))"

text \<open>
  Lines 216 to 231 of \<open>WebService.batch_call\<close>, as a function of the text of the reply.
  The matrix is the list of its rows. \<^verbatim>\<open>data.pop(0)\<close> and \<^verbatim>\<open>matrix[0]\<close> raise
  \<open>IndexError\<close> on an empty list.
\<close>

fun batch_call_rows :: "string list list \<Rightarrow> string list \<Rightarrow> error + string list list" where
  "batch_call_rows matrix [] = Inr matrix"
| "batch_call_rows matrix (row # data) =
     (let row_data = map np_str (py_split CHR '','' row)
      in case matrix of
           [] \<Rightarrow> Inl IndexError
         | matrix0 # _ \<Rightarrow>
             batch_call_rows
               (if length matrix0 = length row_data then matrix @ [row_data] else matrix) data)"

definition batch_call_parse :: "string \<Rightarrow> error + string list list" where
  "batch_call_parse text =
     (case py_split (CHR 0x0A) text of
        [] \<Rightarrow> Inl IndexError
      | header # data \<Rightarrow> batch_call_rows [map np_str (py_split CHR '','' header)] data)"

subsection \<open>WebService.single_point\<close>

record web_service =
  service_url :: string
  model :: string
  frame :: string
  epoch :: string
  tocsv :: bool
  lang :: string
  conversion :: string
  projection :: string
  westpos :: string

definition WebService :: "string \<Rightarrow> string \<Rightarrow> string \<Rightarrow> string \<Rightarrow> bool \<Rightarrow> web_service" where
  "WebService service_url' model' frame' epoch' tocsv' =
     \<lparr> service_url = service_url', model = model', frame = frame', epoch = epoch',
       tocsv = tocsv', lang = ''en'', conversion = ''on'', projection = ''geo'',
       westpos = ''true'' \<rparr>"

text \<open>
  \<open>setConversionType\<close> (lines 180 to 190); the method returns the \<open>service_url\<close> of the
  object it leaves.
\<close>

definition setConversionType :: "web_service \<Rightarrow> string \<Rightarrow> string \<Rightarrow> web_service" where
  "setConversionType self type' projection' =
     (let self1 =
        (if type' = ''batch''
           then self\<lparr>service_url := ''https://webapp.geod.nrcan.gc.ca/CSRS/tools/GPSH/upload''\<rparr>
         else if type' = ''CGG2013a''
           then self\<lparr>service_url := ''https://webapp.geod.nrcan.gc.ca/CSRS/tools/GPSH/CGG2013a''\<rparr>
         else if type' = ''HT2_0_CGG2013a''
           then self\<lparr>service_url :=
                  ''https://webapp.geod.nrcan.gc.ca/CSRS/tools/GPSH/HT2_0_CGG2013a''\<rparr>
         else self)
      in self1\<lparr>projection := projection'\<rparr>)"

datatype pyval = StrV string | NumV pynum

text \<open>The dictionary of parameters sent by \<open>single_point\<close> (lines 245 to 261).\<close>

definition single_point_data ::
  "web_service \<Rightarrow> pynum \<Rightarrow> pynum \<Rightarrow> pynum \<Rightarrow> (string \<rightharpoonup> pyval)" where
  "single_point_data self x y z =
     (let data = [''lang'' \<mapsto> StrV (lang self),
                  ''proj'' \<mapsto> StrV (projection self),
                  ''conversion'' \<mapsto> StrV (conversion self),
                  ''westpos'' \<mapsto> StrV (westpos self),
                  ''model'' \<mapsto> StrV (model self),
                  ''frame'' \<mapsto> StrV (frame self),
                  ''epoch'' \<mapsto> StrV (epoch self),
                  ''x'' \<mapsto> NumV x,
                  ''y'' \<mapsto> NumV y,
                  ''z'' \<mapsto> NumV z,
                  ''westpos'' \<mapsto> StrV (westpos self)]
      in if projection self = ''plan'' then data(''zone'' \<mapsto> StrV ''ON-9'') else data)"

text \<open>
  \<open>single_point\<close> (lines 233 to 267). The keyword arguments are options, \<open>None\<close> for an
  argument left out. The class has no method \<open>setServiceURL\<close>, so a call with a
  \<open>type\<close> raises \<open>AttributeError\<close> before any field is assigned. \<open>http_get\<close> is the
  request of the \<open>requests\<close> library, a parameter: the text of the reply, or \<open>None\<close>
  when the request raises. The result is the object after the call and its outcome.
\<close>

definition single_point ::
  "(string \<Rightarrow> (string \<rightharpoonup> pyval) \<Rightarrow> string option) \<Rightarrow> web_service
     \<Rightarrow> pynum \<Rightarrow> pynum \<Rightarrow> pynum \<Rightarrow> string option
     \<Rightarrow> string option \<Rightarrow> string option \<Rightarrow> string option \<Rightarrow> string option
     \<Rightarrow> string option \<Rightarrow> string option \<Rightarrow> string option
     \<Rightarrow> web_service \<times> (error + string)" where
  "single_point http_get self x y z type' projection' lang' conversion' westpos'
       model' frame' epoch' =
     (if type' \<noteq> None then (self, Inl AttributeError)
      else
        (let self1 = self\<lparr>projection :=
                       (if projection' \<noteq> None then the projection' else projection self)\<rparr>;
             self2 = self1\<lparr>lang := (if lang' \<noteq> None then the lang' else lang self1)\<rparr>;
             self3 = self2\<lparr>conversion :=
                       (if conversion' \<noteq> None then the conversion' else conversion self2)\<rparr>;
             self4 = self3\<lparr>westpos :=
                       (if westpos' \<noteq> None then the westpos' else westpos self3)\<rparr>;
             self5 = self4\<lparr>model := (if model' \<noteq> None then the model' else model self4)\<rparr>;
             self6 = self5\<lparr>frame := (if frame' \<noteq> None then the frame' else frame self5)\<rparr>;
             self7 = self6\<lparr>epoch := (if epoch' \<noteq> None then the epoch' else epoch self6)\<rparr>
         in case http_get (service_url self7) (single_point_data self7 x y z) of
              None \<Rightarrow> (self7, Inl RequestException)
            | Some text \<Rightarrow> (self7, Inr text)))"

section \<open>The batch merge\<close>

subsection \<open>extract_height\<close>

text \<open>
  The loop of lines 450 to 452 over \<^verbatim>\<open>range(len(header))\<close>, collecting the indices of
  the columns named \<open>height_code\<close>.
\<close>

fun find_columns :: "string list \<Rightarrow> string \<Rightarrow> nat list \<Rightarrow> nat list \<Rightarrow> nat list" where
  "find_columns header height_code [] res = res"
| "find_columns header height_code (i # is) res =
     find_columns header height_code is (if header ! i = height_code then res @ [i] else res)"

text \<open>
  \<open>extract_height\<close>: the matrix is the list of its rows, the first one the header.
  \<^verbatim>\<open>matrix[:1][0]\<close> raises \<open>IndexError\<close> on a matrix without rows, \<^verbatim>\<open>res[0]\<close> raises
  it when no column matched, and so does the column slice on a row too short for it
  (a numpy matrix is rectangular, so that no row of it is).
\<close>

definition extract_height :: "string list list \<Rightarrow> string \<Rightarrow> error + string list" where
  "extract_height matrix height_code =
     (case matrix of
        [] \<Rightarrow> Inl IndexError
      | header # rows \<Rightarrow>
          (case find_columns header height_code [0..<length header] [] of
             [] \<Rightarrow> Inl IndexError
           | res0 # _ \<Rightarrow>
               if list_all (\<lambda>row. res0 < length row) rows
               then Inr (map (\<lambda>row. row ! res0) rows)
               else Inl IndexError))"

subsection \<open>The merge of the script (lines 493 to 499)\<close>

text \<open>
  \<^verbatim>\<open>astype(np.float)\<close> converts every string of the column or raises \<open>ValueError\<close>.
  The conversion of one string is numpy's, a parameter of the model: \<open>None\<close> for a
  text that is no number.
\<close>

fun astype_float :: "(string \<Rightarrow> npfloat option) \<Rightarrow> string list \<Rightarrow> error + npfloat list" where
  "astype_float to_float [] = Inr []"
| "astype_float to_float (s # ss) =
     (case to_float s of
        None \<Rightarrow> Inl ValueError
      | Some f \<Rightarrow>
          (case astype_float to_float ss of Inl e \<Rightarrow> Inl e | Inr fs \<Rightarrow> Inr (f # fs)))"

text \<open>The loop of lines 494 and 495 over \<^verbatim>\<open>range(len(new_heights))\<close>.\<close>

fun encode_loop :: "file_info \<Rightarrow> nat list \<Rightarrow> npfloat list \<Rightarrow> npfloat list" where
  "encode_loop batch_file [] new_heights = new_heights"
| "encode_loop batch_file (i # is) new_heights =
     encode_loop batch_file is
       (new_heights[i := encode (new_heights ! i) (z_scale batch_file) (z_offset batch_file)])"

text \<open>
  The assignment \<^verbatim>\<open>rwStream.Z = new_heights\<close> of line 499. The stream was opened in
  the mode \<^verbatim>\<open>rw\<close> (line 35), and \<open>Z\<close> is a property of the library's file class, so
  that the assignment runs the library's setter. The library is no part of the script;
  the setter is modelled by what it does with a column, which is what the comment of
  line 492 (\<^verbatim>\<open>Will throw exception because points are being limited above\<close>) counts
  on:

    \<^item> a column whose length is not the number of point records is refused with a
      \<open>LaspyException\<close>, before anything is written;

    \<^item> otherwise each value is stored in the 32-bit integer field \<open>Z\<close> of its record,
      converted as numpy converts a float to an integer: by cutting off the fraction.

  The conversion of a float that is not finite, or lies outside the 32-bit range, is
  not defined by the C language and differs between platforms; what it yields is the
  parameter \<open>cast_undef\<close>.
\<close>

definition trunc_toward_zero :: "real \<Rightarrow> int" where
  "trunc_toward_zero x = (if 0 \<le> x then \<lfloor>x\<rfloor> else \<lceil>x\<rceil>)"

definition int32_of_float :: "(npfloat \<Rightarrow> int) \<Rightarrow> npfloat \<Rightarrow> int" where
  "int32_of_float cast_undef v =
     (case v of
        Finite x \<Rightarrow>
          if - (2 ^ 31) \<le> trunc_toward_zero x \<and> trunc_toward_zero x < 2 ^ 31
          then trunc_toward_zero x
          else cast_undef v
      | NonFinite \<Rightarrow> cast_undef v)"

definition set_Z ::
  "(npfloat \<Rightarrow> int) \<Rightarrow> las_file \<Rightarrow> npfloat list \<Rightarrow> las_file \<times> error option" where
  "set_Z cast_undef rwStream new_dim =
     (if length new_dim \<noteq> length (points rwStream) then (rwStream, Some LaspyException)
      else (rwStream\<lparr>Z := map (\<lambda>v. IntV (int32_of_float cast_undef v)) new_dim\<rparr>, None))"

text \<open>
  The merge (lines 487 to 499): \<open>batch_file\<close> is the FileInfo of the stream that is
  modified; the result is the stream after the merge, and the exception that ended it,
  if any. The only statement that touches the stream is the last one, the assignment of
  the whole column.
\<close>

definition batch_merge ::
  "(string \<Rightarrow> npfloat option) \<Rightarrow> (npfloat \<Rightarrow> int) \<Rightarrow> string list list \<Rightarrow> las_file
     \<Rightarrow> las_file \<times> error option" where
  "batch_merge to_float cast_undef matrix rwStream =
     (let batch_file = open_read_stream rwStream
      in case extract_height matrix ''H2013'' of
           Inl e \<Rightarrow> (rwStream, Some e)
         | Inr column \<Rightarrow>
             (case astype_float to_float column of
                Inl e \<Rightarrow> (rwStream, Some e)
              | Inr new_heights \<Rightarrow>
                  set_Z cast_undef rwStream
                    (encode_loop batch_file [0..<length new_heights] new_heights)))"

subsection \<open>A conversion of plain decimal texts\<close>

text \<open>
  An instance of the conversion parameter for concrete inputs: an optional minus sign,
  digits, and an optional point followed by digits, with at least one digit in all.
  On these texts it is the float that numpy's conversion reads, the one nearest to the
  decimal number.
\<close>

definition digit_of :: "char \<Rightarrow> nat option" where
  "digit_of c =
     (let n = (of_char c :: nat) in if 48 \<le> n \<and> n \<le> 57 then Some (n - 48) else None)"

fun digits_value :: "string \<Rightarrow> nat \<Rightarrow> nat option" where
  "digits_value [] acc = Some acc"
| "digits_value (c # cs) acc =
     (case digit_of c of None \<Rightarrow> None | Some d \<Rightarrow> digits_value cs (10 * acc + d))"

definition plain_decimal :: "string \<Rightarrow> npfloat option" where
  "plain_decimal s =
     (let neg = (s \<noteq> [] \<and> hd s = CHR ''-'');
          body = (if neg then tl s else s);
          ip = takeWhile (\<lambda>c. c \<noteq> CHR ''.'') body;
          fp = tl (dropWhile (\<lambda>c. c \<noteq> CHR ''.'') body)
      in if ip = [] \<and> fp = [] then None
         else (case (digits_value ip 0, digits_value fp 0) of
                 (Some a, Some b) \<Rightarrow>
                   Some (binary64
                     ((if neg then - 1 else 1) * (real a + real b / 10 ^ length fp)))
               | _ \<Rightarrow> None))"

section \<open>Concrete inputs\<close>

text \<open>
  A file of three points with the schema \<open>X, Y, Z\<close> (Scenario 2 of the design document),
  with the offsets, the scale and the first points of \<open>csv_to_las\<close>.
\<close>

definition scenario2_file :: las_file where
  "scenario2_file =
     \<lparr> header_offset = (double_of 329999.8947, double_of 4839000.0062, 0),
       header_scale = (double_of 0.0001, double_of 0.0001, double_of 0.0001),
       point_format = [''X'', ''Y'', ''Z''],
       points = [[[IntV 0, IntV 0, IntV 6710]],
                 [[IntV 23391, IntV (- 3190), IntV 6170]],
                 [[IntV 264321, IntV 426858, IntV 4170]]],
       X = [IntV 0, IntV 23391, IntV 264321],
       Y = [IntV 0, IntV (- 3190), IntV 426858],
       Z = [IntV 6710, IntV 6170, IntV 4170] \<rparr>"

text \<open>
  A reply with the header of Scenario 3, two rows of four fields and one of three; the
  text ends with a newline, as the lines of a CSV file do.
\<close>

definition scenario3_text :: string where
  "scenario3_text =
     ''utm_e,utm_n,H2013,utm_z'' @ [CHR 0x0A] @
     ''330000.0,4839000.0,0.125,ON-9'' @ [CHR 0x0A] @
     ''330002.5,4838999.5,1.5'' @ [CHR 0x0A] @
     ''330026.0,4839042.5,2.5,ON-9'' @ [CHR 0x0A]"

text \<open>
  A target of two points, with scale \<open>0.5\<close> and offset \<open>0\<close> on every axis, and replies of
  two and of three rows for it (Scenario 4). All these numbers are floats.
\<close>

definition target2 :: las_file where
  "target2 =
     \<lparr> header_offset = (0, 0, 0),
       header_scale = (0.5, 0.5, 0.5),
       point_format = [''X'', ''Y'', ''Z''],
       points = [[[IntV 2, IntV 4, IntV 6]], [[IntV 8, IntV 10, IntV 12]]],
       X = [IntV 2, IntV 8],
       Y = [IntV 4, IntV 10],
       Z = [IntV 6, IntV 12] \<rparr>"

definition reply2 :: "string list list" where
  "reply2 =
     [[''utm_e'', ''utm_n'', ''H2013'', ''utm_z''],
      [''1.0'', ''2.0'', ''0.125'', ''ON-9''],
      [''4.0'', ''5.0'', ''1.5'', ''ON-9'']]"

definition reply3 :: "string list list" where
  "reply3 = reply2 @ [[''7.0'', ''8.0'', ''2.5'', ''ON-9'']]"

text \<open>
  A reply of two rows whose first height, \<open>0.375\<close>, is three quarters of the scale, and
  a conversion of the floats that have no 32-bit integer: the least 32-bit integer, which
  is what the processors of the x86 family yield.
\<close>

definition reply_quarters :: "string list list" where
  "reply_quarters =
     [[''utm_e'', ''utm_n'', ''H2013'', ''utm_z''],
      [''1.0'', ''2.0'', ''0.375'', ''ON-9''],
      [''4.0'', ''5.0'', ''1.5'', ''ON-9'']]"

definition cast_x86 :: "npfloat \<Rightarrow> int" where
  "cast_x86 v = - (2 ^ 31)"

text \<open>
  The service object of the script (lines 478 and 479) and a request that always answers.
\<close>

definition wbservice :: web_service where
  "wbservice =
     setConversionType
       (WebService [] ''HT2_0_CGG2013a'' ''NAD83%28CSRS%29'' ''1997-01-01'' False)
       ''HT2_0_CGG2013a'' ''plan''"

definition answering :: "string \<Rightarrow> (string \<rightharpoonup> pyval) \<Rightarrow> string option" where
  "answering url data = Some ''<response/>''"

section \<open>Properties of the rounding\<close>

text \<open>
  The rounding moves a real by at most half a unit of the last of its 53 bits, and leaves
  a real of 53 bits as it is.
\<close>

lemma round_half_even_error: "\<bar>of_int (round_half_even y) - y\<bar> \<le> 1 / 2"
  unfolding round_half_even_def Let_def by (auto; linarith)

lemma round_half_even_int: "round_half_even (of_int n) = n"
  by (simp add: round_half_even_def)

lemma two_powi_Suc: "(2::real) powi (e + 1) = 2 * 2 powi e"
  by (simp add: power_int_add)

lemma two_powi_pred: "(2::real) powi (e - 1) = 2 powi e / 2"
  by (simp add: power_int_diff)

lemma binary_exponent_bounds:
  "0 < x \<Longrightarrow> 2 powi (- int n) \<le> x \<Longrightarrow> x < 2 powi (int n + 1) \<Longrightarrow>
   2 powi binary_exponent n x \<le> x \<and> x < 2 powi (binary_exponent n x + 1)"
proof (induction n arbitrary: x)
  case 0
  then show ?case by simp
next
  case (Suc n)
  have "int (Suc n) + 1 = (int n + 1) + 1" by simp
  then have up: "(2::real) powi (int (Suc n) + 1) = 2 * 2 powi (int n + 1)"
    by (simp only: two_powi_Suc)
  have "- int (Suc n) = - int n - 1" by simp
  then have down: "(2::real) powi (- int (Suc n)) = 2 powi (- int n) / 2"
    by (simp only: two_powi_pred)
  have le1: "(2::real) powi (- int n) \<le> 1"
    by (simp add: power_int_minus field_simps)
  have ge1: "(2::real) \<le> 2 powi (int n + 1)"
    unfolding two_powi_Suc by simp
  consider "2 \<le> x" | "x < 1" | "1 \<le> x" "x < 2" by linarith
  then show ?case
  proof cases
    case 1
    have a: "0 < x / 2" using Suc.prems(1) by simp
    have b: "2 powi (- int n) \<le> x / 2" using 1 le1 by linarith
    have c: "x / 2 < 2 powi (int n + 1)" using Suc.prems(3) up by linarith
    have ex: "binary_exponent (Suc n) x = binary_exponent n (x / 2) + 1"
      using 1 by simp
    from Suc.IH [OF a b c] show ?thesis
      unfolding ex two_powi_Suc by linarith
  next
    case 2
    have a: "0 < x * 2" using Suc.prems(1) by simp
    have b: "2 powi (- int n) \<le> x * 2" using Suc.prems(2) down by linarith
    have c: "x * 2 < 2 powi (int n + 1)" using 2 ge1 by linarith
    have ex: "binary_exponent (Suc n) x = binary_exponent n (x * 2) - 1"
      using 2 by simp
    have bk: "binary_exponent n (x * 2) - 1 + 1 = binary_exponent n (x * 2)" by simp
    from Suc.IH [OF a b c] show ?thesis
      unfolding ex bk two_powi_pred two_powi_Suc by linarith
  next
    case 3
    then show ?thesis by simp
  qed
qed

lemma binary_exponent_small:
  "0 < x \<Longrightarrow> x < 2 powi (- int n) \<Longrightarrow> binary_exponent n x = - int n"
proof (induction n arbitrary: x)
  case 0
  then show ?case by simp
next
  case (Suc n)
  have "- int (Suc n) = - int n - 1" by simp
  then have down: "(2::real) powi (- int (Suc n)) = 2 powi (- int n) / 2"
    by (simp only: two_powi_pred)
  have le1: "(2::real) powi (- int n) \<le> 1"
    by (simp add: power_int_minus field_simps)
  have x1: "x < 1" using Suc.prems(2) down le1 by linarith
  have a: "0 < x * 2" using Suc.prems(1) by simp
  have b: "x * 2 < 2 powi (- int n)" using Suc.prems(2) down by linarith
  from Suc.IH [OF a b] x1 show ?case by simp
qed


lemma two_powi_mono: "a \<le> b \<Longrightarrow> (2::real) powi a \<le> 2 powi b"
  by (rule power_int_increasing) simp_all

lemma two_powi_less_cancel: "(2::real) powi a < 2 powi b \<Longrightarrow> a < b"
  using two_powi_mono [of b a] by (cases "a < b") simp_all

lemma binary_exponent_unique:
  assumes "0 < x" "2 powi e \<le> x" "x < 2 powi (e + 1)" "- 1100 \<le> e" "e < 1100"
  shows "binary_exponent 1100 x = e"
proof -
  have lo: "2 powi (- int 1100) \<le> x"
    using two_powi_mono [of "- int 1100" e] assms by simp
  have hi: "x < 2 powi (int 1100 + 1)"
    using two_powi_mono [of "e + 1" "int 1100 + 1"] assms by simp
  let ?b = "binary_exponent 1100 x"
  from binary_exponent_bounds [OF assms(1) lo hi]
  have b: "2 powi ?b \<le> x" "x < 2 powi (?b + 1)" by simp_all
  have "2 powi ?b < (2::real) powi (e + 1)" using b(1) assms(3) by linarith
  then have 1: "?b < e + 1" by (rule two_powi_less_cancel)
  have "2 powi e < (2::real) powi (?b + 1)" using b(2) assms(2) by linarith
  then have 2: "e < ?b + 1" by (rule two_powi_less_cancel)
  from 1 2 show ?thesis by simp
qed

lemma double_of_eval:
  assumes "2 powi e \<le> \<bar>x\<bar>" "\<bar>x\<bar> < 2 powi (e + 1)" "- 1022 \<le> e" "e < 1100"
  shows "double_of x =
           sgn x * (of_int (round_half_even (\<bar>x\<bar> / 2 powi (e - 52))) * 2 powi (e - 52))"
proof -
  have pos: "0 < \<bar>x\<bar>" using assms(1) zero_less_power_int [of "2::real" e] by linarith
  then have nz: "x \<noteq> 0" by simp
  have "binary_exponent 1100 \<bar>x\<bar> = e"
    using pos assms by (intro binary_exponent_unique) simp_all
  moreover have "max (e - 52) (- 1074) = e - 52" using assms(3) by simp
  ultimately show ?thesis using nz by (simp only: double_of_def Let_def if_False)
qed

lemma binary_exponent_range:
  assumes "0 < x" "2 powi (- 1100) \<le> x" "x \<le> 2 powi 1100"
  shows "2 powi binary_exponent 1100 x \<le> x" "x < 2 powi (binary_exponent 1100 x + 1)"
proof -
  have lo: "2 powi (- int 1100) \<le> x" using assms(2) by simp
  have "(2::real) powi 1100 < 2 powi (int 1100 + 1)" unfolding two_powi_Suc by simp
  then have hi: "x < 2 powi (int 1100 + 1)" using assms(3) by simp
  from binary_exponent_bounds [OF assms(1) lo hi]
  show "2 powi binary_exponent 1100 x \<le> x" "x < 2 powi (binary_exponent 1100 x + 1)"
    by simp_all
qed

lemma double_of_step:
  assumes "x \<noteq> 0"
  shows "\<bar>double_of x - x\<bar> \<le> 2 powi max (binary_exponent 1100 \<bar>x\<bar> - 52) (- 1074) / 2"
proof -
  define q where "q = max (binary_exponent 1100 \<bar>x\<bar> - 52) (- 1074)"
  define m where "m = round_half_even (\<bar>x\<bar> / 2 powi q)"
  have p: "0 < (2::real) powi q" by simp
  have d: "double_of x = sgn x * (of_int m * 2 powi q)"
    using assms by (simp only: double_of_def Let_def q_def m_def if_False)
  have x: "x = sgn x * (\<bar>x\<bar> / 2 powi q * 2 powi q)"
    using p by (simp add: sgn_mult_abs)
  have "double_of x - x = sgn x * ((of_int m - \<bar>x\<bar> / 2 powi q) * 2 powi q)"
    by (subst x, subst d) (simp add: algebra_simps)
  then have "\<bar>double_of x - x\<bar> = \<bar>sgn x\<bar> * (\<bar>of_int m - \<bar>x\<bar> / 2 powi q\<bar> * 2 powi q)"
    using p by (simp add: abs_mult)
  also have "\<dots> = \<bar>of_int m - \<bar>x\<bar> / 2 powi q\<bar> * 2 powi q"
    using assms by (simp add: abs_sgn_eq)
  also have "\<dots> \<le> 1 / 2 * 2 powi q"
    using round_half_even_error [of "\<bar>x\<bar> / 2 powi q"] p
    unfolding m_def by (intro mult_right_mono) simp_all
  finally show ?thesis unfolding q_def by simp
qed

lemma double_of_error:
  assumes "\<bar>x\<bar> \<le> 2 powi 1100"
  shows "\<bar>double_of x - x\<bar> \<le> \<bar>x\<bar> / 2 ^ 53 + 2 powi (- 1075)"
proof (cases "x = 0")
  case True
  then show ?thesis by (simp add: double_of_def)
next
  case False
  define e where "e = binary_exponent 1100 \<bar>x\<bar>"
  have pos: "0 < \<bar>x\<bar>" using False by simp
  from double_of_step [OF False]
  have st: "\<bar>double_of x - x\<bar> \<le> 2 powi max (e - 52) (- 1074) / 2" unfolding e_def .
  show ?thesis
  proof (cases "e - 52 \<le> - 1074")
    case True
    then have "max (e - 52) (- 1074) = - 1074" by simp
    moreover have "(2::real) powi (- 1074) / 2 = 2 powi (- 1075)"
      using two_powi_pred [of "- 1074"] by simp
    ultimately have "\<bar>double_of x - x\<bar> \<le> 2 powi (- 1075)" using st by simp
    moreover have "0 \<le> \<bar>x\<bar> / 2 ^ 53" by simp
    ultimately show ?thesis by linarith
  next
    case big: False
    then have m: "max (e - 52) (- 1074) = e - 52" by simp
    have "\<not> \<bar>x\<bar> < 2 powi (- int 1100)"
    proof
      assume "\<bar>x\<bar> < 2 powi (- int 1100)"
      from binary_exponent_small [OF pos this] have "e = - 1100" by (simp add: e_def)
      with big show False by simp
    qed
    then have lo: "2 powi (- 1100) \<le> \<bar>x\<bar>" by simp
    from binary_exponent_range(1) [OF pos lo assms]
    have le: "2 powi e \<le> \<bar>x\<bar>" by (simp add: e_def)
    have "(2::real) powi (e - 52) / 2 = 2 powi e / 2 ^ 53"
      using power_int_diff [of "2::real" e 52] by simp
    then have "\<bar>double_of x - x\<bar> \<le> 2 powi e / 2 ^ 53" using st m by simp
    also have "\<dots> \<le> \<bar>x\<bar> / 2 ^ 53" using le by (simp add: divide_right_mono)
    finally have "\<bar>double_of x - x\<bar> \<le> \<bar>x\<bar> / 2 ^ 53" .
    moreover have "0 \<le> (2::real) powi (- 1075)" by simp
    ultimately show ?thesis by linarith
  qed
qed


lemma binary64_finite:
  assumes "\<bar>x\<bar> \<le> 2 ^ 1000"
  shows "binary64 x = Finite (double_of x)"
    and "\<bar>double_of x - x\<bar> \<le> \<bar>x\<bar> / 2 ^ 53 + 2 powi (- 1075)"
proof -
  define K :: real where "K = 2 ^ 1000"
  have K1: "1 \<le> K" unfolding K_def by (rule one_le_power) simp
  have "(2::real) powi 1000 \<le> 2 powi 1100" by (rule two_powi_mono) simp
  then have "K \<le> 2 powi 1100" unfolding K_def by simp
  then have "\<bar>x\<bar> \<le> 2 powi 1100" using assms K_def by linarith
  from double_of_error [OF this]
  have err: "\<bar>double_of x - x\<bar> \<le> \<bar>x\<bar> / 2 ^ 53 + 2 powi (- 1075)" .
  have "(2::real) powi (- 1075) \<le> 2 powi 0" by (rule two_powi_mono) simp
  then have eta: "(2::real) powi (- 1075) \<le> 1" by simp
  have "\<bar>x\<bar> / 2 ^ 53 \<le> \<bar>x\<bar>" by (simp add: field_simps)
  with err eta assms have "\<bar>double_of x\<bar> \<le> 2 * K + 1" unfolding K_def by linarith
  also have "\<dots> < 2 ^ 24 * K" using K1 by simp
  also have "\<dots> = 2 ^ 1024" unfolding K_def by (simp only: power_add [symmetric]) simp
  finally have "\<not> 2 ^ 1024 \<le> \<bar>double_of x\<bar>" by simp
  then show "binary64 x = Finite (double_of x)" by (simp only: binary64_def if_False)
  from err show "\<bar>double_of x - x\<bar> \<le> \<bar>x\<bar> / 2 ^ 53 + 2 powi (- 1075)" .
qed

lemma double_of_exact:
  assumes m: "\<bar>m\<bar> < 2 ^ 53" and k: "- 1074 \<le> k" "k \<le> 1000"
  shows "double_of (of_int m * 2 powi k) = of_int m * 2 powi k"
proof (cases "m = 0")
  case True
  then show ?thesis by (simp add: double_of_def)
next
  case False
  define x :: real where "x = of_int m * 2 powi k"
  have p: "0 < (2::real) powi k" by simp
  have ax: "\<bar>x\<bar> = of_int \<bar>m\<bar> * 2 powi k"
    unfolding x_def by (simp add: abs_mult)
  have m1: "(1::real) \<le> of_int \<bar>m\<bar>" using False by (simp add: of_int_1_le_iff [symmetric] del: of_int_1_le_iff of_int_abs)
  have nz: "x \<noteq> 0" unfolding x_def using False by simp
  then have pos: "0 < \<bar>x\<bar>" by simp
  have "2 powi k \<le> \<bar>x\<bar>" unfolding ax using m1 p by simp
  moreover have "(2::real) powi (- 1100) \<le> 2 powi k" using k by (intro two_powi_mono) simp
  ultimately have lo: "2 powi (- 1100) \<le> \<bar>x\<bar>" by linarith
  have "of_int \<bar>m\<bar> < (2::real) ^ 53" using m by (simp add: of_int_less_numeral_power_cancel_iff del: of_int_abs)
  then have lt: "\<bar>x\<bar> < 2 ^ 53 * 2 powi k" unfolding ax using p by simp
  have pk: "(2::real) ^ 53 * 2 powi k = 2 powi (53 + k)"
    using power_int_add [of "2::real" 53 k] by simp
  have "(2::real) powi (53 + k) \<le> 2 powi 1100" using k by (intro two_powi_mono) simp
  with lt pk have hi: "\<bar>x\<bar> \<le> 2 powi 1100" by linarith
  define e where "e = binary_exponent 1100 \<bar>x\<bar>"
  from binary_exponent_range(1) [OF pos lo hi] have "2 powi e \<le> \<bar>x\<bar>" by (simp add: e_def)
  with lt pk have "2 powi e < (2::real) powi (53 + k)" by linarith
  then have ek: "e < 53 + k" by (rule two_powi_less_cancel)
  define q where "q = max (e - 52) (- 1074)"
  have qk: "q \<le> k" unfolding q_def using ek k by simp
  have pq: "0 < (2::real) powi q" by simp
  have "(2::real) powi k = 2 powi (k - q) * 2 powi q"
    using power_int_add [of "2::real" "k - q" q] by simp
  also have "(2::real) powi (k - q) = 2 ^ nat (k - q)"
    using qk by (simp add: power_int_nonneg_exp)
  finally have split: "(2::real) powi k = 2 ^ nat (k - q) * 2 powi q" .
  have "\<bar>x\<bar> / 2 powi q = of_int \<bar>m\<bar> * 2 ^ nat (k - q)"
    unfolding ax split using pq by simp
  also have "\<dots> = of_int (\<bar>m\<bar> * 2 ^ nat (k - q))" by simp
  finally have "round_half_even (\<bar>x\<bar> / 2 powi q) = \<bar>m\<bar> * 2 ^ nat (k - q)"
    by (simp only: round_half_even_int)
  then have "double_of x = sgn x * (of_int (\<bar>m\<bar> * 2 ^ nat (k - q)) * 2 powi q)"
    using nz by (simp only: double_of_def Let_def q_def e_def if_False)
  also have "of_int (\<bar>m\<bar> * 2 ^ nat (k - q)) * 2 powi q = \<bar>x\<bar>"
    unfolding ax split by simp
  also have "sgn x * \<bar>x\<bar> = x" by (simp add: sgn_mult_abs)
  finally show ?thesis unfolding x_def .
qed

lemma double_of_int: "\<bar>m\<bar> < 2 ^ 53 \<Longrightarrow> double_of (of_int m) = of_int m"
  using double_of_exact [of m 0] by simp

lemma two_powi_1000: "(2::real) powi 1000 = 2 ^ 1000"
  by simp

lemma binary64_eval:
  assumes "2 powi e \<le> \<bar>x\<bar>" "\<bar>x\<bar> < 2 powi (e + 1)" "- 1022 \<le> e" "e < 1000"
  shows "binary64 x =
           Finite (sgn x * (of_int (round_half_even (\<bar>x\<bar> / 2 powi (e - 52))) * 2 powi (e - 52)))"
proof -
  have "(2::real) powi (e + 1) \<le> 2 powi 1000" using assms(4) by (intro two_powi_mono) simp
  with assms(2) have "\<bar>x\<bar> \<le> 2 ^ 1000" unfolding two_powi_1000 by linarith
  from binary64_finite(1) [OF this] have "binary64 x = Finite (double_of x)" .
  moreover have "e < 1100" using assms(4) by simp
  ultimately show ?thesis using double_of_eval [OF assms(1,2,3)] by simp
qed

lemma binary64_exact:
  assumes "\<bar>m\<bar> < 2 ^ 53" "- 1074 \<le> k" "k \<le> 900"
  shows "binary64 (of_int m * 2 powi k) = Finite (of_int m * 2 powi k)"
proof -
  have p: "0 < (2::real) powi k" by simp
  have "of_int \<bar>m\<bar> < (2::real) ^ 53"
    using assms(1) by (simp add: of_int_less_numeral_power_cancel_iff del: of_int_abs)
  then have "\<bar>of_int m * 2 powi k\<bar> < (2::real) ^ 53 * 2 powi k"
    using p by (simp add: abs_mult)
  also have "(2::real) ^ 53 * 2 powi k = 2 powi (53 + k)"
    using power_int_add [of "2::real" 53 k] by simp
  also have "\<dots> \<le> 2 powi 1000" using assms(3) by (intro two_powi_mono) simp
  finally have "\<bar>of_int m * 2 powi k\<bar> \<le> (2::real) ^ 1000" unfolding two_powi_1000 by simp
  from binary64_finite(1) [OF this] double_of_exact [of m k] assms
  show ?thesis by simp
qed

lemma binary64_zero: "binary64 0 = Finite 0"
  using binary64_exact [of 0 0] by simp

text \<open>The floats of the decimal numbers used below, and the operations on them.\<close>

lemma scenario1_floats:
  "double_of 0.0001 = 7378697629483821 / 73786976294838206464"
  "double_of 329999.8947 = 5669355021679775 / 17179869184"
  "double_of 329999.9947 = 5669356739666693 / 17179869184"
  using double_of_eval [of "- 14" "0.0001"] double_of_eval [of 18 "329999.8947"]
    double_of_eval [of 18 "329999.9947"]
  by (simp_all add: round_half_even_def)

lemma scenario1_product:
  "binary64 (1000 * (7378697629483821 / 73786976294838206464))
     = Finite (3602879701896397 / 36028797018963968)"
  using binary64_eval [of "- 4" "1000 * (7378697629483821 / 73786976294838206464)"]
  by (simp add: round_half_even_def)

lemma scenario1_sum:
  "binary64 (3602879701896397 / 36028797018963968 + 5669355021679775 / 17179869184)
     = Finite (5669356739666693 / 17179869184)"
  using binary64_eval [of 18 "3602879701896397 / 36028797018963968 + 5669355021679775 / 17179869184"]
  by (simp add: round_half_even_def)

lemma scenario1_difference:
  "binary64 (5669356739666693 / 17179869184 - 5669355021679775 / 17179869184)
     = Finite (858993459 / 8589934592)"
  using binary64_exact [of 858993459 "- 33"] by simp

lemma scenario1_quotient:
  "binary64 (858993459 / 8589934592 / (7378697629483821 / 73786976294838206464))
     = Finite (536870911875 / 536870912)"
  using binary64_eval [of 9 "858993459 / 8589934592 / (7378697629483821 / 73786976294838206464)"]
  by (simp add: round_half_even_def)

lemma tiny_scale_floats:
  "double_of 0.0000001 = 944473296573929 / 9444732965739290427392"
  "binary64 (1 * (944473296573929 / 9444732965739290427392))
     = Finite (944473296573929 / 9444732965739290427392)"
  "binary64 (944473296573929 / 9444732965739290427392 + 10000000000) = Finite 10000000000"
  using double_of_eval [of "- 24" "0.0000001"]
    binary64_exact [of 944473296573929 "- 73"]
    binary64_eval [of 33 "944473296573929 / 9444732965739290427392 + 10000000000"]
  by (simp_all add: round_half_even_def)

section \<open>Properties of the scale/offset expressions\<close>

lemma decode_int:
  "decode (IntV r) s o' =
     (case binary64 (of_int r * s) of Finite p \<Rightarrow> binary64 (p + o') | NonFinite \<Rightarrow> NonFinite)"
  by (cases "binary64 (of_int r * s)") (simp_all add: decode_def)

lemma encode_finite:
  "s \<noteq> 0 \<Longrightarrow> encode (Finite v) s o' =
     (case binary64 (v - o') of Finite d \<Rightarrow> binary64 (d / s) | NonFinite \<Rightarrow> NonFinite)"
  by (cases "binary64 (v - o')") (simp_all add: encode_def)

lemma encode_zero_scale: "encode v 0 o' = NonFinite"
proof (cases v)
  case (Finite x)
  then show ?thesis by (cases "binary64 (x - o')") (simp_all add: encode_def)
next
  case NonFinite
  then show ?thesis by (simp add: encode_def)
qed

text \<open>
  The four roundings of a decode followed by an encode: the product, the sum, the
  difference and the quotient. The first three move the value by less than three eighths
  of the scale when the offset is at most \<open>2 ^ 51\<close> scales.
\<close>

lemma quotient_near_raw:
  assumes s: "2 powi (- 500) \<le> s" "s \<le> 2 ^ 500"
      and o: "\<bar>o'\<bar> \<le> 2 ^ 51 * s"
      and r: "\<bar>r\<bar> \<le> 2 ^ 31"
  shows "\<exists>q. encode (decode (IntV r) s o') s o' = Finite q \<and> \<bar>q - of_int r\<bar> < 1 / 2"
proof -
  define a :: real where "a = of_int r"
  define eta :: real where "eta = 2 powi (- 1075)"
  have spos: "0 < s" using s(1) zero_less_power_int [of "2::real" "- 500"] by linarith
  have a: "\<bar>a\<bar> \<le> 2 ^ 31"
    unfolding a_def using r by (simp add: of_int_abs [symmetric] of_int_le_numeral_power_cancel_iff del: of_int_abs)
  have "(2::real) powi (- 1075) \<le> 2 powi (- 560)" by (rule two_powi_mono) simp
  also have "(2::real) powi (- 560) = 2 powi (- 500) / 2 ^ 60"
    using power_int_diff [of "2::real" "- 500" 60] by simp
  also have "\<dots> \<le> s / 2 ^ 60" using s(1) by (simp add: divide_right_mono)
  finally have eta_s: "eta \<le> s / 2 ^ 60" unfolding eta_def .
  have "(2::real) powi (- 1075) \<le> 2 powi (- 60)" by (rule two_powi_mono) simp
  then have eta_1: "eta \<le> 1 / 2 ^ 60" unfolding eta_def by (simp add: power_int_minus_divide)
  have "(2::real) ^ 52 * 2 ^ 500 \<le> 2 ^ 1000"
    by (simp only: power_add [symmetric]) (rule power_increasing, simp_all)
  moreover have "2 ^ 52 * s \<le> (2::real) ^ 52 * 2 ^ 500" using s(2) by simp
  ultimately have big: "2 ^ 52 * s \<le> 2 ^ 1000" by linarith
  text \<open>the product\<close>
  define c where "c = a * s"
  define p where "p = double_of c"
  have "\<bar>c\<bar> = \<bar>a\<bar> * s" unfolding c_def using spos by (simp add: abs_mult)
  also have "\<dots> \<le> 2 ^ 31 * s" using a spos by (intro mult_right_mono) simp_all
  finally have x1: "\<bar>c\<bar> \<le> 2 ^ 31 * s" .
  then have "\<bar>c\<bar> \<le> 2 ^ 52 * s" using spos by (simp; argo)
  then have "\<bar>c\<bar> \<le> 2 ^ 1000" using big by (rule order_trans)
  from binary64_finite [OF this]
  have p: "binary64 c = Finite p" and pe: "\<bar>p - c\<bar> \<le> \<bar>c\<bar> / 2 ^ 53 + eta"
    unfolding p_def eta_def by simp_all
  from pe x1 eta_s spos have e1: "\<bar>p - c\<bar> \<le> s / 2 ^ 20" by (simp; argo)
  with x1 spos have p1: "\<bar>p\<bar> \<le> 2 ^ 32 * s" by (simp; argo)
  text \<open>the sum\<close>
  define v where "v = double_of (p + o')"
  have x2: "\<bar>p + o'\<bar> \<le> 2 ^ 51 * s + 2 ^ 32 * s" using p1 o spos by (simp; argo)
  then have "\<bar>p + o'\<bar> \<le> 2 ^ 52 * s" using spos by (simp; argo)
  then have "\<bar>p + o'\<bar> \<le> 2 ^ 1000" using big by (rule order_trans)
  from binary64_finite [OF this]
  have v: "binary64 (p + o') = Finite v" and ve: "\<bar>v - (p + o')\<bar> \<le> \<bar>p + o'\<bar> / 2 ^ 53 + eta"
    unfolding v_def eta_def by simp_all
  from ve x2 eta_s spos have e2: "\<bar>v - (p + o')\<bar> \<le> s / 4 + s / 2 ^ 20" by (simp; argo)
  text \<open>the difference\<close>
  define w where "w = double_of (v - o')"
  have t3: "\<bar>(v - o') - c\<bar> \<le> s / 4 + s / 2 ^ 18"
    using e1 e2 spos by (simp; argo)
  with x1 spos have x3: "\<bar>v - o'\<bar> \<le> 2 ^ 32 * s" by (simp; argo)
  then have "\<bar>v - o'\<bar> \<le> 2 ^ 52 * s" using spos by (simp; argo)
  then have "\<bar>v - o'\<bar> \<le> 2 ^ 1000" using big by (rule order_trans)
  from binary64_finite [OF this]
  have w: "binary64 (v - o') = Finite w" and we: "\<bar>w - (v - o')\<bar> \<le> \<bar>v - o'\<bar> / 2 ^ 53 + eta"
    unfolding w_def eta_def by simp_all
  from we x3 eta_s spos have e3: "\<bar>w - (v - o')\<bar> \<le> s / 2 ^ 20" by (simp; argo)
  have ws: "\<bar>w - c\<bar> \<le> 3 / 8 * s" using t3 e3 spos by (simp; argo)
  text \<open>the quotient\<close>
  define d where "d = w / s"
  define q where "q = double_of d"
  have "d - a = (w - c) / s" unfolding c_def d_def using spos by (simp add: field_simps)
  then have "\<bar>d - a\<bar> = \<bar>w - c\<bar> / s" using spos by (simp add: abs_divide)
  also have "\<dots> \<le> 3 / 8" using ws spos by (simp add: field_simps)
  finally have x4: "\<bar>d - a\<bar> \<le> 3 / 8" .
  with a have x4': "\<bar>d\<bar> \<le> 2 ^ 32" by (simp; argo)
  have "(2::real) ^ 32 \<le> 2 ^ 1000" by (rule power_increasing) simp_all
  with x4' have "\<bar>d\<bar> \<le> 2 ^ 1000" by (rule order_trans)
  from binary64_finite [OF this]
  have q: "binary64 d = Finite q" and qe: "\<bar>q - d\<bar> \<le> \<bar>d\<bar> / 2 ^ 53 + eta"
    unfolding q_def eta_def by simp_all
  from qe x4' eta_1 have e4: "\<bar>q - d\<bar> \<le> 1 / 2 ^ 20" by (simp; argo)
  from x4 e4 have "\<bar>q - a\<bar> < 1 / 2" by (simp; argo)
  moreover have "encode (decode (IntV r) s o') s o' = Finite q"
    using spos p v w q by (simp add: encode_def decode_def a_def c_def d_def)
  ultimately show ?thesis unfolding a_def by blast
qed

lemma round_near:
  fixes q :: real
  assumes "\<bar>q - of_int r\<bar> < 1 / 2"
  shows "round q = r"
proof -
  from assms have "of_int r \<le> q + 1 / 2" "q + 1 / 2 < of_int r + 1" by linarith+
  then show ?thesis unfolding round_def by (simp add: floor_unique)
qed

lemma trunc_near:
  assumes "\<bar>q - of_int r\<bar> < 1 / 2"
  shows "trunc_toward_zero q = r \<or> trunc_toward_zero q = r - sgn r"
proof -
  consider "0 < r" | "r = 0" | "r < 0" by linarith
  then show ?thesis
  proof cases
    case 1
    then have r1: "(1::real) \<le> of_int r" by simp
    with assms have q0: "0 \<le> q" by linarith
    show ?thesis
    proof (cases "of_int r \<le> q")
      case True
      with assms have "\<lfloor>q\<rfloor> = r" by (intro floor_unique) linarith+
      with q0 show ?thesis by (simp add: trunc_toward_zero_def)
    next
      case False
      with assms have "of_int r - 1 \<le> q" "q < of_int r" by linarith+
      then have "\<lfloor>q\<rfloor> = r - 1" by (intro floor_unique) simp_all
      with q0 1 show ?thesis by (simp add: trunc_toward_zero_def)
    qed
  next
    case 2
    with assms have "\<bar>q\<bar> < 1 / 2" by simp
    then have "\<lfloor>q\<rfloor> = 0 \<or> \<not> 0 \<le> q" "\<lceil>q\<rceil> = 0 \<or> 0 \<le> q"
      by (auto intro!: floor_unique ceiling_unique; linarith)+
    with 2 show ?thesis by (auto simp: trunc_toward_zero_def)
  next
    case 3
    then have r1: "of_int r \<le> (- 1::real)" by simp
    with assms have q0: "\<not> 0 \<le> q" by linarith
    show ?thesis
    proof (cases "q \<le> of_int r")
      case True
      with assms have "\<lceil>q\<rceil> = r" by (intro ceiling_unique) linarith+
      with q0 show ?thesis by (simp add: trunc_toward_zero_def)
    next
      case False
      with assms have "of_int r < q" "q \<le> of_int r + 1" by linarith+
      then have "\<lceil>q\<rceil> = r + 1" by (intro ceiling_unique) simp_all
      with q0 3 show ?thesis by (simp add: trunc_toward_zero_def)
    qed
  qed
qed

text \<open>The two expressions at the values of Scenario 1, and at a scale of \<^verbatim>\<open>1e-7\<close>.\<close>

lemma decode_scenario1_value:
  "decode (IntV 1000) (double_of 0.0001) (double_of 329999.8947)
     = Finite (5669356739666693 / 17179869184)"
  unfolding scenario1_floats
  by (simp only: decode_def as_float.simps of_int_numeral fl_mul.simps fl_add.simps
        scenario1_product scenario1_sum)

lemma encode_scenario1_value:
  "encode (Finite (5669356739666693 / 17179869184)) (double_of 0.0001) (double_of 329999.8947)
     = Finite (536870911875 / 536870912)"
proof -
  have nz: "(7378697629483821 / 73786976294838206464 :: real) \<noteq> 0" by simp
  show ?thesis
    unfolding scenario1_floats
    by (simp only: encode_def fl_sub.simps fl_div.simps scenario1_difference
          scenario1_quotient nz if_False)
qed

lemma tiny_scale_decode_value:
  "decode (IntV 1) (double_of 0.0000001) 10000000000 = Finite 10000000000"
  unfolding tiny_scale_floats(1)
  by (simp only: decode_def as_float.simps of_int_1 fl_mul.simps fl_add.simps
        tiny_scale_floats(2,3))

lemma tiny_scale_encode_value:
  "encode (Finite 10000000000) (double_of 0.0000001) 10000000000 = Finite 0"
proof -
  have nz: "(944473296573929 / 9444732965739290427392 :: real) \<noteq> 0" by simp
  have d: "binary64 (10000000000 - 10000000000) = Finite 0" by (simp add: binary64_zero)
  have q: "binary64 (0 / (944473296573929 / 9444732965739290427392)) = Finite 0"
    by (simp add: binary64_zero)
  show ?thesis
    unfolding tiny_scale_floats(1)
    by (simp only: encode_def fl_sub.simps fl_div.simps d q nz if_False)
qed

text \<open>
  Claim C2 (round trip), as amended. Let the scale \<open>s\<close> lie between \<open>2 ^ (- 500)\<close> and
  \<open>2 ^ 500\<close>, the offset be at most \<open>2 ^ 51\<close> scales in magnitude, and \<open>r\<close> be a 32-bit
  integer. Then the quotient \<open>q\<close> that line 495 computes from the value that line 345
  computes from \<open>r\<close> is a finite float less than one half away from \<open>r\<close>. So the encode of
  the design document, which rounds \<open>q\<close> to the nearest integer, returns \<open>r\<close>. The script
  does not round: the integer that the assignment of the column stores for \<open>q\<close> is \<open>q\<close>
  without its fraction, which is \<open>r\<close> or the integer next to \<open>r\<close> on the side of zero.
\<close>

theorem round_trip:
  assumes s: "2 powi (- 500) \<le> s" "s \<le> 2 ^ 500"
      and o: "\<bar>o'\<bar> \<le> 2 ^ 51 * s"
      and r: "- (2 ^ 31) \<le> r" "r < 2 ^ 31"
  shows "\<exists>q. encode (decode (IntV r) s o') s o' = Finite q
           \<and> \<bar>q - of_int r\<bar> < 1 / 2
           \<and> spec_encode (decode (IntV r) s o') s o' = Some r
           \<and> (int32_of_float cast_undef (Finite q) = r
                \<or> int32_of_float cast_undef (Finite q) = r - sgn r)"
proof -
  from r have "\<bar>r\<bar> \<le> 2 ^ 31" by simp
  from quotient_near_raw [OF s o this]
  obtain q where q: "encode (decode (IntV r) s o') s o' = Finite q"
    and near: "\<bar>q - of_int r\<bar> < 1 / 2" by blast
  have sp: "spec_encode (decode (IntV r) s o') s o' = Some r"
    using round_near [OF near] by (simp add: spec_encode_def q)
  from trunc_near [OF near]
  have t: "trunc_toward_zero q = r \<or> trunc_toward_zero q = r - sgn r" .
  then have "- (2 ^ 31) \<le> trunc_toward_zero q \<and> trunc_toward_zero q < 2 ^ 31"
    using r by (auto simp: sgn_if split: if_splits)
  then have "int32_of_float cast_undef (Finite q) = trunc_toward_zero q"
    by (simp add: int32_of_float_def)
  with q near sp t show ?thesis by auto
qed

text \<open>
  Scenario 1: with the scale \<^verbatim>\<open>0.0001\<close> and the offset \<^verbatim>\<open>329999.8947\<close> the raw integer
  \<open>1000\<close> comes back as a quotient within one half of \<open>1000\<close>.
\<close>

theorem round_trip_witness:
  "\<exists>q. encode (decode (IntV 1000) (double_of 0.0001) (double_of 329999.8947))
            (double_of 0.0001) (double_of 329999.8947) = Finite q
       \<and> \<bar>q - 1000\<bar> < 1 / 2
       \<and> spec_encode (decode (IntV 1000) (double_of 0.0001) (double_of 329999.8947))
            (double_of 0.0001) (double_of 329999.8947) = Some 1000"
proof -
  have s1: "2 powi (- 500) \<le> double_of 0.0001"
  proof -
    have "(2::real) powi (- 500) \<le> 2 powi (- 14)" by (rule two_powi_mono) simp
    also have "\<dots> \<le> double_of 0.0001" unfolding scenario1_floats by simp
    finally show ?thesis .
  qed
  have s2: "double_of 0.0001 \<le> 2 ^ 500"
  proof -
    have "double_of 0.0001 \<le> (2::real) ^ 0" unfolding scenario1_floats by simp
    also have "\<dots> \<le> 2 ^ 500" by (rule power_increasing) simp_all
    finally show ?thesis .
  qed
  have o: "\<bar>double_of 329999.8947\<bar> \<le> 2 ^ 51 * double_of 0.0001"
    unfolding scenario1_floats by simp
  have r: "- (2 ^ 31) \<le> (1000::int)" "(1000::int) < 2 ^ 31" by simp_all
  from round_trip [OF s1 s2 o r, of cast_x86] show ?thesis by auto
qed

text \<open>
  The claim as stated fails. At the values of Scenario 1 the quotient of the script is
  \<open>999.9999997671694\<close> and not \<open>1000\<close>, and the integer stored for it is \<open>999\<close>. And
  rounding the quotient does not help for every valid scale: with the scale \<^verbatim>\<open>1e-7\<close>
  and the offset \<^verbatim>\<open>1e10\<close> the raw integer \<open>1\<close> decodes to the offset itself, so that the
  encode of the design document returns \<open>0\<close>.
\<close>

theorem round_trip_counterexample:
  "encode (decode (IntV 1000) (double_of 0.0001) (double_of 329999.8947))
      (double_of 0.0001) (double_of 329999.8947) = Finite (536870911875 / 536870912)
   \<and> int32_of_float cast_x86 (Finite (536870911875 / 536870912)) = 999
   \<and> 0 < double_of 0.0000001
   \<and> decode (IntV 1) (double_of 0.0000001) 10000000000 = Finite 10000000000
   \<and> spec_encode (decode (IntV 1) (double_of 0.0000001) 10000000000)
        (double_of 0.0000001) 10000000000 = Some 0"
proof -
  have t: "int32_of_float cast_x86 (Finite (536870911875 / 536870912)) = 999"
    by (simp add: int32_of_float_def trunc_toward_zero_def)
  have p: "0 < double_of 0.0000001" unfolding tiny_scale_floats by simp
  have a: "encode (decode (IntV 1000) (double_of 0.0001) (double_of 329999.8947))
             (double_of 0.0001) (double_of 329999.8947) = Finite (536870911875 / 536870912)"
    unfolding decode_scenario1_value by (rule encode_scenario1_value)
  have b: "spec_encode (decode (IntV 1) (double_of 0.0000001) 10000000000)
             (double_of 0.0000001) 10000000000 = Some 0"
    unfolding spec_encode_def tiny_scale_decode_value tiny_scale_encode_value by simp
  show ?thesis by (intro conjI a t p tiny_scale_decode_value b)
qed

text \<open>
  Claim C3 (Scenario 1), as amended. With the scale \<^verbatim>\<open>0.0001\<close> and the offset
  \<^verbatim>\<open>329999.8947\<close> the raw integer \<open>1000\<close> decodes to the float \<^verbatim>\<open>329999.9947\<close>: the
  product is \<open>0.1\<close>, not \<open>0.1053\<close>. In exact arithmetic the value is \<open>329999.9947\<close> as
  well.
\<close>

theorem scenario1_decode:
  "decode (IntV 1000) (double_of 0.0001) (double_of 329999.8947) = Finite (double_of 329999.9947)
   \<and> 1000 * 0.0001 + 329999.8947 = (329999.9947 :: real)"
  unfolding decode_scenario1_value scenario1_floats(3) by simp

text \<open>
  The value stated for Scenario 1, \<open>330000.0\<close>, is not the decoded value; the two differ
  by \<open>0.0053\<close>.
\<close>

theorem scenario1_decode_counterexample:
  "decode (IntV 1000) (double_of 0.0001) (double_of 329999.8947) \<noteq> Finite 330000.0"
  unfolding decode_scenario1_value by simp

section \<open>Properties of the CSV writer\<close>

lemma get_header_loop_join:
  "get_header_loop (index + int (length atts)) atts index head = head @ comma_join atts"
proof (induction atts arbitrary: index head)
  case Nil
  show ?case by simp
next
  case (Cons a rest)
  have eq: "index + int (length (a # rest)) = (index + 1) + int (length rest)" by simp
  show ?case
  proof (cases rest)
    case Nil
    then show ?thesis by simp
  next
    case (Cons b more)
    then have ne: "index + 1 < index + int (length (a # rest))" by simp
    have "get_header_loop (index + int (length (a # rest))) (a # rest) index head
            = get_header_loop (index + int (length (a # rest))) rest (index + 1)
                ((head @ a) @ '','')"
      using ne by (simp only: get_header_loop.simps Let_def if_True)
    also have "\<dots> = get_header_loop ((index + 1) + int (length rest)) rest (index + 1)
                ((head @ a) @ '','')"
      by (simp only: eq)
    also have "\<dots> = ((head @ a) @ '','') @ comma_join rest"
      by (rule Cons.IH)
    finally show ?thesis using Cons by simp
  qed
qed

lemma open_read_stream_header_size:
  "header_size (open_read_stream f) = int (length (attributes (open_read_stream f)))"
  by (simp add: open_read_stream_def split: prod.splits)

lemma open_read_stream_attributes:
  "attributes (open_read_stream f) = point_format f"
  by (simp add: open_read_stream_def split: prod.splits)

lemma open_read_stream_num_points:
  "num_points (open_read_stream f) = length (points f)"
  by (simp add: open_read_stream_def split: prod.splits)

lemma get_header_join:
  "header_size fi = int (length (attributes fi)) \<Longrightarrow> get_header fi = comma_join (attributes fi)"
  using get_header_loop_join [of 0 "attributes fi" "[]"] by (simp add: get_header_def)

text \<open>
  Claim C8 (header fidelity). For a FileInfo whose \<open>header_size\<close> is the number of its
  attribute names the header line is the names joined by commas in their order, with no
  comma after the last. \<open>open_read_stream\<close>, which builds every FileInfo of the script,
  sets \<open>header_size\<close> so: the header line of an opened file is its point format joined
  by commas, whatever the schema.
\<close>

theorem header_fidelity:
  "(header_size fi = int (length (attributes fi)) \<longrightarrow>
      get_header fi = comma_join (attributes fi))
   \<and> get_header (open_read_stream inFile) = comma_join (point_format inFile)"
  using get_header_join [of fi] get_header_join [OF open_read_stream_header_size, of inFile]
  by (simp add: open_read_stream_attributes)

text \<open>The header of the three-point file of Scenario 2.\<close>

theorem header_fidelity_witness:
  "get_header (open_read_stream scenario2_file) = ''X,Y,Z''"
proof -
  have h: "header_size (open_read_stream scenario2_file)
             = int (length (attributes (open_read_stream scenario2_file)))"
    by (rule open_read_stream_header_size)
  show ?thesis
    using h header_fidelity [of "open_read_stream scenario2_file" scenario2_file]
    by (simp add: open_read_stream_attributes scenario2_file_def)
qed

lemma out_value_ok:
  "index < length (attributes fi) \<Longrightarrow> \<exists>v. out_value fi index a = Inr v"
  by (simp add: out_value_def)

lemma out_value_error:
  "out_value fi index a = Inl e \<Longrightarrow> e = IndexError"
  by (simp add: out_value_def split: if_splits)

lemma line_loop_ok:
  "index + length pts \<le> length (attributes fi) \<Longrightarrow> \<exists>l. line_loop str fi pts index line = Inr l"
proof (induction pts arbitrary: index line)
  case Nil
  show ?case by simp
next
  case (Cons a rest)
  from Cons.prems have "index < length (attributes fi)" by simp
  then obtain v where v: "out_value fi index a = Inr v" using out_value_ok by blast
  from Cons.prems have "(index + 1) + length rest \<le> length (attributes fi)" by simp
  from Cons.IH [OF this] show ?case using v by (simp add: Let_def)
qed

lemma line_loop_error:
  "line_loop str fi pts index line = Inl e \<Longrightarrow> e = IndexError"
proof (induction pts arbitrary: index line)
  case Nil
  then show ?case by simp
next
  case (Cons a rest)
  then show ?case
    by (auto simp: Let_def split: sum.splits dest: out_value_error)
qed

lemma points_list_loop_ok:
  "\<forall>p\<in>set pl. length p \<le> length (attributes fi) \<Longrightarrow>
   points_list_loop str fi pl out =
     (out @ map (\<lambda>p. projr (line_loop str fi p 0 []) @ [CHR 0x0A]) pl, None)"
proof (induction pl arbitrary: out)
  case Nil
  show ?case by simp
next
  case (Cons p rest)
  from Cons.prems have "0 + length p \<le> length (attributes fi)" by simp
  then obtain l where l: "line_loop str fi p 0 [] = Inr l" using line_loop_ok by blast
  from Cons.prems have "\<forall>q\<in>set rest. length q \<le> length (attributes fi)" by simp
  from Cons.IH [OF this] show ?case using l by simp
qed

lemma points_list_loop_error:
  "points_list_loop str fi pl out = (out', Some e) \<Longrightarrow> e = IndexError"
proof (induction pl arbitrary: out)
  case Nil
  then show ?case by simp
next
  case (Cons p rest)
  then show ?case by (auto split: sum.splits dest: line_loop_error)
qed

lemma points_loop_ok:
  "\<forall>pl\<in>set pts. \<forall>p\<in>set pl. length p \<le> length (attributes fi) \<Longrightarrow>
   points_loop str fi pts out =
     (out @ map (\<lambda>p. projr (line_loop str fi p 0 []) @ [CHR 0x0A]) (concat pts), None)"
proof (induction pts arbitrary: out)
  case Nil
  show ?case by simp
next
  case (Cons pl rest)
  from Cons.prems have a: "\<forall>p\<in>set pl. length p \<le> length (attributes fi)" by simp
  from Cons.prems have b: "\<forall>pl\<in>set rest. \<forall>p\<in>set pl. length p \<le> length (attributes fi)"
    by simp
  show ?case
    by (simp add: points_list_loop_ok [OF a] Cons.IH [OF b])
qed

lemma points_loop_error:
  "points_loop str fi pts out = (out', Some e) \<Longrightarrow> e = IndexError"
proof (induction pts arbitrary: out)
  case Nil
  then show ?case by simp
next
  case (Cons pl rest)
  then show ?case
    by (auto split: prod.splits option.splits dest: points_list_loop_error)
qed

lemma las_to_csv_error:
  assumes "snd (las_to_csv str inFile) = Some e"
  shows "e = IndexError"
proof -
  have "points_loop str (open_read_stream inFile) (points inFile)
          [get_header (open_read_stream inFile) @ [CHR 0x0A]]
        = (fst (las_to_csv str inFile), Some e)"
    using assms by (simp add: las_to_csv_def Let_def prod_eq_iff)
  then show ?thesis by (rule points_loop_error)
qed

lemma length_concat_singletons:
  "\<forall>pl\<in>set pts. length pl = 1 \<Longrightarrow> length (concat pts) = length pts"
  by (induction pts) auto

text \<open>
  Claim C9 (row-count conservation). For a file whose records have no more values than
  the schema has names, \<open>las_to_csv\<close> ends without an exception after writing one line
  more than there are records: first the header line, then, in order, the line of each
  record, every one ended by a newline. Where each element of \<open>points\<close> holds exactly one
  record, as in the streams of the LAS library, that is \<open>num_points + 1\<close> lines.
\<close>

theorem row_count_conservation:
  assumes schema:
    "\<forall>pl\<in>set (points inFile). \<forall>p\<in>set pl. length p \<le> length (point_format inFile)"
  shows "\<exists>outFile. las_to_csv str inFile = (outFile, None)
           \<and> length outFile = length (concat (points inFile)) + 1
           \<and> outFile ! 0 = get_header (open_read_stream inFile) @ [CHR 0x0A]
           \<and> (\<forall>k<length (concat (points inFile)). \<exists>line.
                 line_loop str (open_read_stream inFile) (concat (points inFile) ! k) 0 []
                   = Inr line
                 \<and> outFile ! (k + 1) = line @ [CHR 0x0A])
           \<and> ((\<forall>pl\<in>set (points inFile). length pl = 1) \<longrightarrow>
                 length outFile = num_points (open_read_stream inFile) + 1)"
proof -
  let ?fi = "open_read_stream inFile"
  let ?recs = "concat (points inFile)"
  let ?f = "\<lambda>p. projr (line_loop str ?fi p 0 []) @ [CHR 0x0A]"
  let ?out = "[get_header ?fi @ [CHR 0x0A]] @ map ?f ?recs"
  from schema
  have s: "\<forall>pl\<in>set (points inFile). \<forall>p\<in>set pl. length p \<le> length (attributes ?fi)"
    by (simp add: open_read_stream_attributes)
  have run: "las_to_csv str inFile = (?out, None)"
    by (simp add: las_to_csv_def Let_def points_loop_ok [OF s])
  have len: "length ?out = length ?recs + 1" by simp
  have first: "?out ! 0 = get_header ?fi @ [CHR 0x0A]" by simp
  have rest: "\<exists>line. line_loop str ?fi (?recs ! k) 0 [] = Inr line
                 \<and> ?out ! (k + 1) = line @ [CHR 0x0A]" if k: "k < length ?recs" for k
  proof -
    from k have "?recs ! k \<in> set ?recs" by (rule nth_mem)
    then obtain pl where "pl \<in> set (points inFile)" "?recs ! k \<in> set pl" by auto
    with s have "0 + length (?recs ! k) \<le> length (attributes ?fi)" by auto
    then obtain l where l: "line_loop str ?fi (?recs ! k) 0 [] = Inr l"
      using line_loop_ok by blast
    have "?out ! (k + 1) = ?f (?recs ! k)"
      using k by simp
    with l show ?thesis by simp
  qed
  have wrapped: "length ?out = num_points ?fi + 1"
    if "\<forall>pl\<in>set (points inFile). length pl = 1"
    using length_concat_singletons [OF that] by (simp add: open_read_stream_num_points)
  show ?thesis
  proof (intro exI conjI allI impI)
    show "las_to_csv str inFile = (?out, None)" by (rule run)
    show "length ?out = length ?recs + 1" by (rule len)
    show "?out ! 0 = get_header ?fi @ [CHR 0x0A]" by (rule first)
    show "line_loop str ?fi (?recs ! k) 0 [] = Inr (projr (line_loop str ?fi (?recs ! k) 0 []))"
      if "k < length ?recs" for k
      using rest [OF that] by auto
    show "?out ! (k + 1) = projr (line_loop str ?fi (?recs ! k) 0 []) @ [CHR 0x0A]"
      if "k < length ?recs" for k
      using that by simp
    show "length ?out = num_points ?fi + 1"
      if "\<forall>pl\<in>set (points inFile). length pl = 1"
      using that by (rule wrapped)
  qed
qed

text \<open>Scenario 2: three points with the schema \<open>X, Y, Z\<close> give four lines, first \<open>X,Y,Z\<close>.\<close>

theorem row_count_conservation_witness:
  "\<forall>str. \<exists>outFile. las_to_csv str scenario2_file = (outFile, None)
      \<and> length outFile = 4 \<and> outFile ! 0 = ''X,Y,Z'' @ [CHR 0x0A]"
proof
  fix str
  have h: "\<forall>pl\<in>set (points scenario2_file). \<forall>p\<in>set pl.
             length p \<le> length (point_format scenario2_file)"
    by (simp add: scenario2_file_def)
  have hd: "get_header (open_read_stream scenario2_file) = ''X,Y,Z''"
    by (simp add: get_header_def open_read_stream_def scenario2_file_def)
  have n: "length (concat (points scenario2_file)) = 3"
    by (simp add: scenario2_file_def)
  from row_count_conservation [OF h, of str]
  obtain outFile where o: "las_to_csv str scenario2_file = (outFile, None)"
      "length outFile = length (concat (points scenario2_file)) + 1"
      "outFile ! 0 = get_header (open_read_stream scenario2_file) @ [CHR 0x0A]"
    by (elim exE conjE)
  show "\<exists>outFile. las_to_csv str scenario2_file = (outFile, None)
      \<and> length outFile = 4 \<and> outFile ! 0 = ''X,Y,Z'' @ [CHR 0x0A]"
    using o by (simp add: hd n)
qed

text \<open>
  The lines are lines of the file: where neither a name of the schema nor the rendering
  of a value holds a newline, the text written has as many newline characters as there
  were writes, one at the end of each.
\<close>

lemma comma_join_no_newline:
  "\<forall>a\<in>set A. c \<notin> set a \<Longrightarrow> c \<noteq> CHR '','' \<Longrightarrow> c \<notin> set (comma_join A)"
  by (induction A rule: comma_join.induct) auto

lemma line_loop_no_newline:
  assumes "line_loop str fi pts index line = Inr l"
      and "c \<notin> set line" and "\<forall>v. c \<notin> set (str v)" and "c \<noteq> CHR '',''"
  shows "c \<notin> set l"
  using assms
proof (induction pts arbitrary: index line)
  case Nil
  then show ?case by simp
next
  case (Cons a rest)
  from Cons.prems(1) obtain v where v: "out_value fi index a = Inr v"
    by (cases "out_value fi index a") auto
  let ?line = "if int index < header_size fi - 1 then (line @ str v) @ '','' else line @ str v"
  from Cons.prems(1) v have run: "line_loop str fi rest (index + 1) ?line = Inr l"
    by (simp add: Let_def)
  have "c \<notin> set ?line" using Cons.prems(2,3,4) by simp
  from Cons.IH [OF run this Cons.prems(3,4)] show ?case .
qed

lemma count_newline_terminated:
  "\<forall>w\<in>set ws. \<exists>l. w = l @ [c] \<and> c \<notin> set l \<Longrightarrow> count_list (concat ws) c = length ws"
proof (induction ws)
  case Nil
  show ?case by simp
next
  case (Cons w ws)
  then obtain l where "w = l @ [c]" "c \<notin> set l" by auto
  with Cons show ?case by (simp add: count_list_0_iff)
qed

lemma las_to_csv_newlines:
  assumes schema:
    "\<forall>pl\<in>set (points inFile). \<forall>p\<in>set pl. length p \<le> length (point_format inFile)"
      and names: "\<forall>a\<in>set (point_format inFile). CHR 0x0A \<notin> set a"
      and rendered: "\<forall>v. CHR 0x0A \<notin> set (str v)"
  shows "count_list (concat (fst (las_to_csv str inFile))) (CHR 0x0A)
           = length (concat (points inFile)) + 1"
proof -
  let ?fi = "open_read_stream inFile"
  let ?recs = "concat (points inFile)"
  let ?f = "\<lambda>p. projr (line_loop str ?fi p 0 []) @ [CHR 0x0A]"
  let ?out = "[get_header ?fi @ [CHR 0x0A]] @ map ?f ?recs"
  from schema
  have s: "\<forall>pl\<in>set (points inFile). \<forall>p\<in>set pl. length p \<le> length (attributes ?fi)"
    by (simp add: open_read_stream_attributes)
  have run: "las_to_csv str inFile = (?out, None)"
    by (simp add: las_to_csv_def Let_def points_loop_ok [OF s])
  have nc: "CHR 0x0A \<noteq> CHR '',''" by simp
  have "get_header ?fi = comma_join (point_format inFile)"
    using get_header_join [OF open_read_stream_header_size, of inFile]
    by (simp add: open_read_stream_attributes)
  then have h: "CHR 0x0A \<notin> set (get_header ?fi)"
    using comma_join_no_newline [OF names nc] by simp
  have r: "CHR 0x0A \<notin> set (projr (line_loop str ?fi p 0 []))" if "p \<in> set ?recs" for p
  proof -
    from that obtain pl where "pl \<in> set (points inFile)" "p \<in> set pl" by auto
    with s have "0 + length p \<le> length (attributes ?fi)" by auto
    then obtain l where l: "line_loop str ?fi p 0 [] = Inr l"
      using line_loop_ok by blast
    from line_loop_no_newline [OF l _ rendered nc] l show ?thesis by simp
  qed
  have "\<forall>w\<in>set ?out. \<exists>l. w = l @ [CHR 0x0A] \<and> CHR 0x0A \<notin> set l"
    using h r by auto
  from count_newline_terminated [OF this] show ?thesis
    by (simp add: run)
qed

section \<open>Properties of the reply parser\<close>

lemma py_split_nonempty: "py_split sep s \<noteq> []"
  by (induction s) (auto split: list.splits)

lemma batch_call_rows_filter:
  "batch_call_rows (h # rs) data =
     Inr ((h # rs) @ map (map np_str)
            (filter (\<lambda>fields. length fields = length h) (map (py_split CHR '','') data)))"
proof (induction data arbitrary: rs)
  case Nil
  show ?case by simp
next
  case (Cons row data)
  show ?case
    using Cons.IH [of "rs @ [map np_str (py_split CHR '','' row)]"] Cons.IH [of rs]
    by (simp add: Let_def)
qed

text \<open>
  Claim C6 (ResponseTable invariant). For every text of a reply the parser returns a
  matrix and raises nothing: its first row is the fields of the first line, and its data
  rows are the fields of exactly those later lines that have as many fields as the first
  line, in order; the other lines are dropped. So every data row has the column count of
  the header row.
\<close>

theorem response_table_invariant:
  "\<exists>header rows.
      batch_call_parse reply = Inr (header # rows)
    \<and> header = map np_str (py_split CHR '','' (hd (py_split (CHR 0x0A) reply)))
    \<and> rows = map (map np_str)
               (filter (\<lambda>fields. length fields = length header)
                  (map (py_split CHR '','') (tl (py_split (CHR 0x0A) reply))))
    \<and> (\<forall>row\<in>set rows. length row = length header)"
proof -
  obtain l ls where sp: "py_split (CHR 0x0A) reply = l # ls"
    using py_split_nonempty [of "CHR 0x0A" reply] by (cases "py_split (CHR 0x0A) reply") auto
  let ?header = "map np_str (py_split CHR '','' l)"
  let ?rows = "map (map np_str)
      (filter (\<lambda>fields. length fields = length ?header) (map (py_split CHR '','') ls))"
  have run: "batch_call_parse reply = Inr (?header # ?rows)"
    by (simp add: batch_call_parse_def sp batch_call_rows_filter)
  have rect: "\<forall>row\<in>set ?rows. length row = length ?header" by auto
  have h: "?header = map np_str (py_split CHR '','' (hd (py_split (CHR 0x0A) reply)))"
    by (simp add: sp)
  have r: "?rows = map (map np_str)
               (filter (\<lambda>fields. length fields = length ?header)
                  (map (py_split CHR '','') (tl (py_split (CHR 0x0A) reply))))"
    by (simp add: sp)
  from run rect h r show ?thesis by blast
qed

text \<open>
  Scenario 3: of the three data lines, the one with three fields is dropped, and so is the
  empty line after the last newline.
\<close>

theorem response_table_invariant_witness:
  "batch_call_parse scenario3_text =
     Inr [[''utm_e'', ''utm_n'', ''H2013'', ''utm_z''],
          [''330000.0'', ''4839000.0'', ''0.125'', ''ON-9''],
          [''330026.0'', ''4839042.5'', ''2.5'', ''ON-9'']]"
proof -
  have sp: "py_split (CHR 0x0A) scenario3_text =
      [''utm_e,utm_n,H2013,utm_z'', ''330000.0,4839000.0,0.125,ON-9'',
       ''330002.5,4838999.5,1.5'', ''330026.0,4839042.5,2.5,ON-9'', []]"
    by (simp add: scenario3_text_def)
  from response_table_invariant [of scenario3_text]
  obtain header rows where run: "batch_call_parse scenario3_text = Inr (header # rows)"
    and h: "header = map np_str (py_split CHR '','' (hd (py_split (CHR 0x0A) scenario3_text)))"
    and r: "rows = map (map np_str)
               (filter (\<lambda>fields. length fields = length header)
                  (map (py_split CHR '','') (tl (py_split (CHR 0x0A) scenario3_text))))"
    and rect: "\<forall>row\<in>set rows. length row = length header"
    by (elim exE conjE)
  have h': "header = [''utm_e'', ''utm_n'', ''H2013'', ''utm_z'']"
    unfolding h sp by (simp add: np_str_def)
  have r': "rows = [[''330000.0'', ''4839000.0'', ''0.125'', ''ON-9''],
          [''330026.0'', ''4839042.5'', ''2.5'', ''ON-9'']]"
    unfolding r sp h' by (simp add: np_str_def)
  show ?thesis unfolding run h' r' ..
qed

section \<open>Properties of the column lookup\<close>

lemma find_columns_filter:
  "find_columns header code idx res = res @ filter (\<lambda>i. header ! i = code) idx"
  by (induction idx arbitrary: res) auto

lemma filter_upt_first:
  "filter P [m..<n] = j # rest \<Longrightarrow> j < n \<and> P j \<and> (\<forall>i. m \<le> i \<and> i < j \<longrightarrow> \<not> P i)"
proof (induction "n - m" arbitrary: m)
  case 0
  then show ?case by simp
next
  case (Suc d)
  then have mn: "m < n" by simp
  then have u: "[m..<n] = m # [Suc m..<n]" by (simp add: upt_conv_Cons)
  show ?case
  proof (cases "P m")
    case True
    with Suc.prems u have "j = m" by simp
    with True mn show ?thesis by auto
  next
    case False
    with Suc.prems u have f: "filter P [Suc m..<n] = j # rest" by simp
    have "d = n - Suc m" using Suc.hyps(2) by simp
    from Suc.hyps(1) [OF this f]
    have ih: "j < n" "P j" "\<forall>i. Suc m \<le> i \<and> i < j \<longrightarrow> \<not> P i" by auto
    have "\<not> P i" if "m \<le> i \<and> i < j" for i
    proof (cases "i = m")
      case True
      with False show ?thesis by simp
    next
      case False
      with that have "Suc m \<le> i \<and> i < j" by simp
      with ih(3) show ?thesis by blast
    qed
    with ih(1,2) show ?thesis by blast
  qed
qed

lemma filter_upt_empty:
  "filter (\<lambda>i. header ! i = code) [0..<length header] = [] \<longleftrightarrow> code \<notin> set header"
  by (auto simp: filter_empty_conv in_set_conv_nth)

lemma extract_height_found:
  assumes rect: "\<forall>row\<in>set rows. length row = length header"
      and i: "i < length header" "header ! i = code" "\<forall>j<i. header ! j \<noteq> code"
  shows "extract_height (header # rows) code = Inr (map (\<lambda>row. row ! i) rows)"
proof -
  have "code \<in> set header" using i(1,2) by (auto simp: in_set_conv_nth)
  then have "filter (\<lambda>i. header ! i = code) [0..<length header] \<noteq> []"
    by (simp add: filter_upt_empty)
  then obtain k rest where f: "filter (\<lambda>i. header ! i = code) [0..<length header] = k # rest"
    by (cases "filter (\<lambda>i. header ! i = code) [0..<length header]") auto
  from filter_upt_first [OF f]
  have k: "k < length header \<and> header ! k = code
             \<and> (\<forall>j. 0 \<le> j \<and> j < k \<longrightarrow> header ! j \<noteq> code)" .
  have "\<not> k < i" using k i(3) by blast
  moreover have "\<not> i < k" using k i(2) by blast
  ultimately have ki: "k = i" by simp
  have "list_all (\<lambda>row. i < length row) rows" using rect i(1) by (simp add: list_all_iff)
  then show ?thesis
    by (simp add: extract_height_def find_columns_filter f ki)
qed

lemma first_column_exists:
  assumes "code \<in> set header"
  shows "\<exists>i<length header. header ! i = code \<and> (\<forall>j<i. header ! j \<noteq> code)"
proof -
  from assms have "filter (\<lambda>i. header ! i = code) [0..<length header] \<noteq> []"
    by (simp add: filter_upt_empty)
  then obtain k rest where f: "filter (\<lambda>i. header ! i = code) [0..<length header] = k # rest"
    by (cases "filter (\<lambda>i. header ! i = code) [0..<length header]") auto
  from filter_upt_first [OF f] show ?thesis by auto
qed

lemma extract_height_missing:
  assumes "code \<notin> set header"
  shows "extract_height (header # rows) code = Inl IndexError"
proof -
  have "filter (\<lambda>i. header ! i = code) [0..<length header] = []"
    using assms by (simp add: filter_upt_empty)
  then show ?thesis
    by (simp add: extract_height_def find_columns_filter)
qed

lemma extract_height_error:
  "extract_height matrix code = Inl e \<Longrightarrow> e = IndexError"
  by (simp add: extract_height_def split: list.splits if_splits)

lemma extract_height_length:
  "extract_height matrix code = Inr column \<Longrightarrow> length column = length (tl matrix)"
  by (auto simp: extract_height_def split: list.splits if_splits)

text \<open>
  Claim C7 (column lookup). For a rectangular table: when the header contains the
  height code, compared as a string and so with case, \<open>extract_height\<close> returns the cells
  of the first column of that name, over all data rows in their order; when no column
  has that name it returns nothing and raises \<open>IndexError\<close>, which is a \<open>LookupError\<close> of
  Python.
\<close>

theorem column_lookup:
  assumes rect: "\<forall>row\<in>set rows. length row = length header"
  shows "(height_code \<in> set header \<longrightarrow>
            (\<exists>i<length header. header ! i = height_code \<and> (\<forall>j<i. header ! j \<noteq> height_code)
               \<and> extract_height (header # rows) height_code
                    = Inr (map (\<lambda>row. row ! i) rows)))
       \<and> (height_code \<notin> set header \<longrightarrow>
            extract_height (header # rows) height_code = Inl IndexError
            \<and> is_LookupError IndexError)"
proof -
  have found: "\<exists>i<length header. header ! i = height_code \<and> (\<forall>j<i. header ! j \<noteq> height_code)
          \<and> extract_height (header # rows) height_code = Inr (map (\<lambda>row. row ! i) rows)"
    if "height_code \<in> set header"
  proof -
    from first_column_exists [OF that]
    obtain i where i: "i < length header" "header ! i = height_code"
        "\<forall>j<i. header ! j \<noteq> height_code"
      by (elim exE conjE)
    from extract_height_found [OF rect i] i show ?thesis by blast
  qed
  have missing: "extract_height (header # rows) height_code = Inl IndexError"
    if "height_code \<notin> set header"
    using that by (rule extract_height_missing)
  have "is_LookupError IndexError" by (simp add: is_LookupError_def)
  with found missing show ?thesis by blast
qed

text \<open>
  The lookup in a reply of two rows: \<open>H2013\<close> is the third column; \<open>h2013\<close> is no column.
\<close>

theorem column_lookup_witness:
  "extract_height reply2 ''H2013'' = Inr [''0.125'', ''1.5'']
   \<and> extract_height reply2 ''h2013'' = Inl IndexError"
proof -
  let ?header = "[''utm_e'', ''utm_n'', ''H2013'', ''utm_z'']"
  let ?rows = "[[''1.0'', ''2.0'', ''0.125'', ''ON-9''], [''4.0'', ''5.0'', ''1.5'', ''ON-9'']]"
  have m: "reply2 = ?header # ?rows" by (simp add: reply2_def)
  have rect: "\<forall>row\<in>set ?rows. length row = length ?header" by simp
  have yes: "''H2013'' \<in> set ?header" by simp
  have no: "''h2013'' \<notin> set ?header" by simp
  from column_lookup [OF rect, of "''H2013''"] yes
  obtain i where i: "i < length ?header" "?header ! i = ''H2013''"
      and e: "extract_height (?header # ?rows) ''H2013'' = Inr (map (\<lambda>row. row ! i) ?rows)"
    by blast
  from i(1) have "i = 0 \<or> i = 1 \<or> i = 2 \<or> i = 3" by auto
  with i(2) have "i = 2" by auto
  with e have found: "extract_height reply2 ''H2013'' = Inr [''0.125'', ''1.5'']"
    by (simp add: m)
  from column_lookup [OF rect, of "''h2013''"] no
  have "extract_height (?header # ?rows) ''h2013'' = Inl IndexError"
    by blast
  then have "extract_height reply2 ''h2013'' = Inl IndexError"
    by (simp add: m)
  with found show ?thesis by simp
qed

section \<open>Properties of the batch merge\<close>

lemma astype_float_ok:
  "map to_float column = map Some hs \<Longrightarrow> astype_float to_float column = Inr hs"
  by (induction column arbitrary: hs) auto

lemma astype_float_error:
  "astype_float to_float column = Inl e \<Longrightarrow> e = ValueError"
  by (induction column arbitrary: e) (auto split: option.splits sum.splits)

lemma astype_float_length:
  "astype_float to_float column = Inr hs \<Longrightarrow> length hs = length column"
  by (induction column arbitrary: hs) (auto split: option.splits sum.splits)

lemma encode_loop_from:
  "k \<le> length xs \<Longrightarrow>
   encode_loop bf [k..<length xs] xs =
     take k xs @ map (\<lambda>h. encode h (z_scale bf) (z_offset bf)) (drop k xs)"
proof (induction "length xs - k" arbitrary: k xs)
  case 0
  then show ?case by simp
next
  case (Suc d)
  then have kl: "k < length xs" by simp
  let ?f = "\<lambda>h. encode h (z_scale bf) (z_offset bf)"
  let ?xs = "xs[k := ?f (xs ! k)]"
  have d: "d = length ?xs - Suc k" using Suc.hyps(2) by simp
  have le: "Suc k \<le> length ?xs" using kl by simp
  have "encode_loop bf [k..<length xs] xs = encode_loop bf [Suc k..<length ?xs] ?xs"
    using kl by (simp add: upt_conv_Cons)
  also have "\<dots> = take (Suc k) ?xs @ map ?f (drop (Suc k) ?xs)"
    using Suc.hyps(1) [OF d le] .
  also have "\<dots> = take k xs @ map ?f (drop k xs)"
    using kl by (simp add: take_Suc_conv_app_nth Cons_nth_drop_Suc [symmetric])
  finally show ?case .
qed

lemma encode_loop_map:
  "encode_loop bf [0..<length xs] xs = map (\<lambda>h. encode h (z_scale bf) (z_offset bf)) xs"
  using encode_loop_from [of 0 xs bf] by simp

lemma int32_of_float_in_range:
  assumes "- (2 ^ 31) \<le> q" "q < 2 ^ 31"
  shows "int32_of_float cast_undef (Finite q) = trunc_toward_zero q"
proof -
  have "- (2 ^ 31) \<le> trunc_toward_zero q"
  proof (cases "0 \<le> q")
    case True
    then show ?thesis by (simp add: trunc_toward_zero_def)
  next
    case False
    have "- (2 ^ 31) \<le> \<lceil>q\<rceil>" using assms(1) by (simp add: le_ceiling_iff)
    with False show ?thesis by (simp add: trunc_toward_zero_def)
  qed
  moreover have "trunc_toward_zero q < 2 ^ 31"
  proof (cases "0 \<le> q")
    case True
    have "\<lfloor>q\<rfloor> < 2 ^ 31" using assms(2) by (simp add: floor_less_iff)
    with True show ?thesis by (simp add: trunc_toward_zero_def)
  next
    case False
    then have "\<lceil>q\<rceil> \<le> 0" by (simp add: ceiling_le_iff)
    with False show ?thesis by (simp add: trunc_toward_zero_def)
  qed
  ultimately show ?thesis by (simp add: int32_of_float_def)
qed

lemma batch_merge_ok:
  assumes "extract_height matrix ''H2013'' = Inr column"
      and "astype_float to_float column = Inr hs"
  shows "batch_merge to_float cast_undef matrix rwStream =
           set_Z cast_undef rwStream
             (map (\<lambda>h. encode h (z_scale (open_read_stream rwStream))
                                 (z_offset (open_read_stream rwStream))) hs)"
  using assms by (simp add: batch_merge_def Let_def encode_loop_map)

lemma batch_merge_cases:
  "(\<exists>e. batch_merge to_float cast_undef matrix rwStream = (rwStream, Some e)
        \<and> (e = IndexError \<or> e = ValueError \<or> e = LaspyException))
   \<or> (\<exists>hs. length hs = length (tl matrix) \<and> length hs = length (points rwStream)
          \<and> batch_merge to_float cast_undef matrix rwStream =
           (rwStream\<lparr>Z := map (\<lambda>h. IntV (int32_of_float cast_undef
                    (encode h (z_scale (open_read_stream rwStream))
                              (z_offset (open_read_stream rwStream))))) hs\<rparr>,
            None))"
proof (cases "extract_height matrix ''H2013''")
  case (Inl e)
  then show ?thesis using extract_height_error [OF Inl] by (simp add: batch_merge_def)
next
  case (Inr column)
  show ?thesis
  proof (cases "astype_float to_float column")
    case (Inl e)
    then show ?thesis using Inr astype_float_error [OF Inl] by (simp add: batch_merge_def)
  next
    case hs: (Inr hs)
    have len: "length hs = length (tl matrix)"
      using astype_float_length [OF hs] extract_height_length [OF Inr] by simp
    show ?thesis
    proof (cases "length hs = length (points rwStream)")
      case True
      have "batch_merge to_float cast_undef matrix rwStream =
           (rwStream\<lparr>Z := map (\<lambda>h. IntV (int32_of_float cast_undef
                    (encode h (z_scale (open_read_stream rwStream))
                              (z_offset (open_read_stream rwStream))))) hs\<rparr>,
            None)"
        using batch_merge_ok [OF Inr hs, of cast_undef rwStream] True
        by (simp add: set_Z_def comp_def)
      with len True show ?thesis by (intro disjI2 exI [of _ hs]) simp
    next
      case False
      then show ?thesis
        using batch_merge_ok [OF Inr hs, of cast_undef rwStream]
        by (simp add: set_Z_def)
    qed
  qed
qed

lemma batch_merge_mismatch:
  assumes "extract_height matrix ''H2013'' = Inr column"
      and "astype_float to_float column = Inr hs"
      and "length (tl matrix) \<noteq> length (points rwStream)"
  shows "batch_merge to_float cast_undef matrix rwStream = (rwStream, Some LaspyException)"
proof -
  have "length hs = length (tl matrix)"
    using astype_float_length [OF assms(2)] extract_height_length [OF assms(1)] by simp
  with assms(3) show ?thesis
    using batch_merge_ok [OF assms(1,2), of cast_undef rwStream] by (simp add: set_Z_def)
qed

text \<open>The merge of the sample replies into the target of two points.\<close>

lemma sample_floats:
  "binary64 (1 / 8) = Finite (1 / 8)"
  "binary64 (1 / 4) = Finite (1 / 4)"
  "binary64 (3 / 8) = Finite (3 / 8)"
  "binary64 (3 / 4) = Finite (3 / 4)"
  "binary64 (3 / 2) = Finite (3 / 2)"
  "binary64 (5 / 2) = Finite (5 / 2)"
  "binary64 3 = Finite 3"
  "binary64 5 = Finite 5"
  "binary64 (- 6) = Finite (- 6)"
  "binary64 (- 500) = Finite (- 500)"
  using binary64_exact [of 1 "- 3"] binary64_exact [of 1 "- 2"] binary64_exact [of 3 "- 3"]
    binary64_exact [of 3 "- 2"] binary64_exact [of 3 "- 1"] binary64_exact [of 5 "- 1"]
    binary64_exact [of 3 0] binary64_exact [of 5 0] binary64_exact [of "- 6" 0]
    binary64_exact [of "- 500" 0]
  by simp_all

lemma plain_decimal_samples:
  "plain_decimal ''0.125'' = Some (Finite 0.125)"
  "plain_decimal ''0.375'' = Some (Finite 0.375)"
  "plain_decimal ''1.5'' = Some (Finite 1.5)"
  "plain_decimal ''2.5'' = Some (Finite 2.5)"
  by (simp_all add: plain_decimal_def digit_of_def sample_floats)

lemma sample_quotients:
  "encode (Finite 0.125) 0.5 0 = Finite 0.25"
  "encode (Finite 0.375) 0.5 0 = Finite 0.75"
  "encode (Finite 1.5) 0.5 0 = Finite 3"
  by (simp_all add: encode_def sample_floats)

lemma sample_casts:
  "int32_of_float cast_undef (Finite 0.25) = 0"
  "int32_of_float cast_undef (Finite 0.75) = 0"
  "int32_of_float cast_undef (Finite 3) = 3"
  by (simp_all add: int32_of_float_def trunc_toward_zero_def)

lemma target2_z:
  "z_scale (open_read_stream target2) = 0.5" "z_offset (open_read_stream target2) = 0"
  by (simp_all add: open_read_stream_def target2_def)

lemma reply2_column: "extract_height reply2 ''H2013'' = Inr [''0.125'', ''1.5'']"
  by (simp add: reply2_def extract_height_def)

lemma reply3_column: "extract_height reply3 ''H2013'' = Inr [''0.125'', ''1.5'', ''2.5'']"
  by (simp add: reply3_def reply2_def extract_height_def)

lemma reply_quarters_column:
  "extract_height reply_quarters ''H2013'' = Inr [''0.375'', ''1.5'']"
  by (simp add: reply_quarters_def extract_height_def)

lemma merge_reply2:
  "batch_merge plain_decimal cast_undef reply2 target2 = (target2\<lparr>Z := [IntV 0, IntV 3]\<rparr>, None)"
proof -
  have a: "astype_float plain_decimal [''0.125'', ''1.5''] = Inr [Finite 0.125, Finite 1.5]"
    by (simp add: plain_decimal_samples)
  have n: "length (points target2) = 2" by (simp add: target2_def)
  show ?thesis
    using batch_merge_ok [OF reply2_column a, of cast_undef target2] sample_quotients
      sample_casts [of cast_undef]
    by (simp add: target2_z set_Z_def n)
qed

lemma merge_reply_quarters:
  "batch_merge plain_decimal cast_undef reply_quarters target2
     = (target2\<lparr>Z := [IntV 0, IntV 3]\<rparr>, None)"
proof -
  have a: "astype_float plain_decimal [''0.375'', ''1.5''] = Inr [Finite 0.375, Finite 1.5]"
    by (simp add: plain_decimal_samples)
  have n: "length (points target2) = 2" by (simp add: target2_def)
  show ?thesis
    using batch_merge_ok [OF reply_quarters_column a, of cast_undef target2] sample_quotients
      sample_casts [of cast_undef]
    by (simp add: target2_z set_Z_def n)
qed

lemma merge_reply3:
  "batch_merge plain_decimal cast_undef reply3 target2 = (target2, Some LaspyException)"
proof -
  have a: "astype_float plain_decimal [''0.125'', ''1.5'', ''2.5'']
             = Inr [Finite 0.125, Finite 1.5, Finite 2.5]"
    by (simp add: plain_decimal_samples)
  have n: "length (tl reply3) \<noteq> length (points target2)"
    by (simp add: target2_def reply3_def reply2_def)
  show ?thesis by (rule batch_merge_mismatch [OF reply3_column a n])
qed

text \<open>
  Claim C1 (merge alignment), as amended. For a target of \<open>n\<close> points and a rectangular
  table of \<open>n\<close> data rows whose first column named \<open>H2013\<close> holds texts of numbers
  \<open>hs\<close>, the merge ends without an exception; the Z column then has \<open>n\<close> values, the
  one of row \<open>k\<close> being the integer stored for the float quotient
  \<open>(hs[k] - z_offset) / z_scale\<close> of line 495. Where that quotient is finite and within
  the 32-bit range, the integer is the quotient without its fraction: it is cut off
  toward zero, not rounded to the nearest integer. X and Y are unchanged.
\<close>

theorem merge_alignment:
  assumes rect: "\<forall>row\<in>set rows. length row = length header"
      and col: "i < length header" "header ! i = ''H2013''" "\<forall>j<i. header ! j \<noteq> ''H2013''"
      and conv: "map (\<lambda>row. to_float (row ! i)) rows = map Some hs"
      and n: "length rows = length (points rwStream)"
  shows "\<exists>s'. batch_merge to_float cast_undef (header # rows) rwStream = (s', None)
           \<and> length (Z s') = length (points rwStream)
           \<and> (\<forall>k<length rows. Z s' ! k =
                 IntV (int32_of_float cast_undef
                   (encode (hs ! k) (z_scale (open_read_stream rwStream))
                                    (z_offset (open_read_stream rwStream)))))
           \<and> (\<forall>k<length rows. \<forall>q.
                 encode (hs ! k) (z_scale (open_read_stream rwStream))
                                 (z_offset (open_read_stream rwStream)) = Finite q
                 \<and> - (2 ^ 31) \<le> q \<and> q < 2 ^ 31
                 \<longrightarrow> Z s' ! k = IntV (trunc_toward_zero q))
           \<and> X s' = X rwStream \<and> Y s' = Y rwStream"
proof -
  let ?enc = "\<lambda>h. encode h (z_scale (open_read_stream rwStream))
                            (z_offset (open_read_stream rwStream))"
  let ?s' = "rwStream\<lparr>Z := map (\<lambda>v. IntV (int32_of_float cast_undef v)) (map ?enc hs)\<rparr>"
  have e: "extract_height (header # rows) ''H2013'' = Inr (map (\<lambda>row. row ! i) rows)"
    using rect col by (rule extract_height_found)
  have "map to_float (map (\<lambda>row. row ! i) rows) = map Some hs"
    using conv by (simp add: comp_def)
  then have a: "astype_float to_float (map (\<lambda>row. row ! i) rows) = Inr hs"
    by (rule astype_float_ok)
  have len: "length hs = length rows"
    using astype_float_length [OF a] by simp
  have run: "batch_merge to_float cast_undef (header # rows) rwStream = (?s', None)"
    using batch_merge_ok [OF e a, of cast_undef rwStream] len n by (simp add: set_Z_def)
  have zk: "Z ?s' ! k = IntV (int32_of_float cast_undef (?enc (hs ! k)))"
    if "k < length rows" for k
    using that len by simp
  have zt: "Z ?s' ! k = IntV (trunc_toward_zero q)"
    if "k < length rows" "?enc (hs ! k) = Finite q" "- (2 ^ 31) \<le> q" "q < 2 ^ 31" for k q
    using zk [OF that(1)] that(2) int32_of_float_in_range [OF that(3,4), of cast_undef]
    by simp
  show ?thesis
  proof (intro exI conjI allI impI)
    show "batch_merge to_float cast_undef (header # rows) rwStream = (?s', None)"
      by (rule run)
    show "length (Z ?s') = length (points rwStream)" using len n by simp
    show "Z ?s' ! k = IntV (int32_of_float cast_undef (?enc (hs ! k)))"
      if "k < length rows" for k
      using that by (rule zk)
    show "Z ?s' ! k = IntV (trunc_toward_zero q)"
      if "k < length rows" "?enc (hs ! k) = Finite q \<and> - (2 ^ 31) \<le> q \<and> q < 2 ^ 31" for k q
      using that zt by blast
    show "X ?s' = X rwStream" by simp
    show "Y ?s' = Y rwStream" by simp
  qed
qed

text \<open>
  The merge of the reply of two rows into the target of two points: the quotients are
  \<open>0.25\<close> and \<open>3\<close>, and the integers stored are \<open>0\<close> and \<open>3\<close>.
\<close>

theorem merge_alignment_witness:
  "snd (batch_merge plain_decimal cast_x86 reply2 target2) = None
   \<and> Z (fst (batch_merge plain_decimal cast_x86 reply2 target2)) = [IntV 0, IntV 3]
   \<and> X (fst (batch_merge plain_decimal cast_x86 reply2 target2)) = [IntV 2, IntV 8]
   \<and> Y (fst (batch_merge plain_decimal cast_x86 reply2 target2)) = [IntV 4, IntV 10]"
proof -
  let ?header = "[''utm_e'', ''utm_n'', ''H2013'', ''utm_z'']"
  let ?rows = "[[''1.0'', ''2.0'', ''0.125'', ''ON-9''], [''4.0'', ''5.0'', ''1.5'', ''ON-9'']]"
  have m: "reply2 = ?header # ?rows" by (simp add: reply2_def)
  have rect: "\<forall>row\<in>set ?rows. length row = length ?header" by simp
  have c1: "2 < length ?header" by simp
  have c2: "?header ! 2 = ''H2013''" by simp
  have c3: "\<forall>j<2. ?header ! j \<noteq> ''H2013''" by (simp add: less_Suc_eq numeral_2_eq_2)
  have conv: "map (\<lambda>row. plain_decimal (row ! 2)) ?rows = map Some [Finite 0.125, Finite 1.5]"
    by (simp add: plain_decimal_samples)
  have n: "length ?rows = length (points target2)" by (simp add: target2_def)
  from merge_alignment [OF rect c1 c2 c3 conv n, of cast_x86]
  obtain s' where run: "batch_merge plain_decimal cast_x86 (?header # ?rows) target2 = (s', None)"
    and len: "length (Z s') = length (points target2)"
    and zs: "\<forall>k<length ?rows. Z s' ! k =
                 IntV (int32_of_float cast_x86 (encode ([Finite 0.125, Finite 1.5] ! k)
                    (z_scale (open_read_stream target2)) (z_offset (open_read_stream target2))))"
    and zt: "\<forall>k<length ?rows. \<forall>q.
                 encode ([Finite 0.125, Finite 1.5] ! k)
                    (z_scale (open_read_stream target2)) (z_offset (open_read_stream target2))
                   = Finite q
                 \<and> - (2 ^ 31) \<le> q \<and> q < 2 ^ 31
                 \<longrightarrow> Z s' ! k = IntV (trunc_toward_zero q)"
    and x: "X s' = X target2" and y: "Y s' = Y target2"
    by (elim exE conjE)
  from len have l2: "length (Z s') = 2" by (simp add: target2_def)
  have q0: "encode ([Finite 0.125, Finite 1.5] ! 0)
              (z_scale (open_read_stream target2)) (z_offset (open_read_stream target2))
            = Finite (1 / 4)"
    using sample_quotients by (simp add: target2_z)
  have q1: "encode ([Finite 0.125, Finite 1.5] ! 1)
              (z_scale (open_read_stream target2)) (z_offset (open_read_stream target2))
            = Finite 3"
    using sample_quotients by (simp add: target2_z)
  from zt [rule_format, of 0 "1 / 4"] q0 have "Z s' ! 0 = IntV (trunc_toward_zero (1 / 4))"
    by simp
  then have z0: "Z s' ! 0 = IntV 0" by (simp add: trunc_toward_zero_def)
  from zt [rule_format, of 1 3] q1 have "Z s' ! 1 = IntV (trunc_toward_zero 3)"
    by simp
  then have z1: "Z s' ! 1 = IntV 3" by (simp add: trunc_toward_zero_def)
  have "Z s' = [Z s' ! 0, Z s' ! 1]"
    using l2 by (auto simp: length_Suc_conv numeral_2_eq_2)
  with z0 z1 have z: "Z s' = [IntV 0, IntV 3]" by simp
  show ?thesis
    using run z x y by (simp add: m target2_def)
qed

text \<open>
  The claim as stated fails where the fraction of a quotient is one half or more: for
  the height \<open>0.375\<close> and the scale \<open>0.5\<close> the quotient is \<open>0.75\<close>, the encode of the
  design document is its rounding \<open>1\<close>, and the merge stores \<open>0\<close>.
\<close>

theorem merge_alignment_counterexample:
  "length (tl reply_quarters) = length (points target2)
   \<and> extract_height reply_quarters ''H2013'' = Inr [''0.375'', ''1.5'']
   \<and> plain_decimal ''0.375'' = Some (Finite 0.375)
   \<and> encode (Finite 0.375) (z_scale (open_read_stream target2))
        (z_offset (open_read_stream target2)) = Finite 0.75
   \<and> spec_encode (Finite 0.375) (z_scale (open_read_stream target2))
        (z_offset (open_read_stream target2)) = Some 1
   \<and> snd (batch_merge plain_decimal cast_x86 reply_quarters target2) = None
   \<and> Z (fst (batch_merge plain_decimal cast_x86 reply_quarters target2)) ! 0 = IntV 0"
proof -
  have en: "encode (Finite 0.375) (z_scale (open_read_stream target2))
        (z_offset (open_read_stream target2)) = Finite 0.75"
    using sample_quotients by (simp add: target2_z)
  have "round (0.75 :: real) = 1" by (simp add: round_def)
  then have sp: "spec_encode (Finite 0.375) (z_scale (open_read_stream target2))
        (z_offset (open_read_stream target2)) = Some 1"
    using en by (simp add: spec_encode_def)
  have len: "length (tl reply_quarters) = length (points target2)"
    by (simp add: reply_quarters_def target2_def)
  from en sp len show ?thesis
    by (simp add: merge_reply_quarters reply_quarters_column plain_decimal_samples)
qed

text \<open>
  Claim C5 (alignment validation), as amended. The script compares no counts and raises
  no \<open>AlignmentError\<close>; the assignment of the column does the check. Whenever the merge
  raises, the target is as it was: there is no partial replacement. When the number
  of data rows differs from the number of points the merge does raise, and the exception
  is the \<open>LaspyException\<close> of the assignment in line 499, unless the lookup of the column
  or the conversion of its texts failed before with \<open>IndexError\<close> or \<open>ValueError\<close>.
\<close>

theorem merge_count_mismatch:
  "(snd (batch_merge to_float cast_undef matrix rwStream) \<noteq> None \<longrightarrow>
        fst (batch_merge to_float cast_undef matrix rwStream) = rwStream)
   \<and> snd (batch_merge to_float cast_undef matrix rwStream) \<noteq> Some AlignmentError
   \<and> (length (tl matrix) \<noteq> length (points rwStream) \<longrightarrow>
        fst (batch_merge to_float cast_undef matrix rwStream) = rwStream
        \<and> (snd (batch_merge to_float cast_undef matrix rwStream) = Some IndexError
           \<or> snd (batch_merge to_float cast_undef matrix rwStream) = Some ValueError
           \<or> snd (batch_merge to_float cast_undef matrix rwStream) = Some LaspyException))
   \<and> (\<forall>column hs. extract_height matrix ''H2013'' = Inr column
          \<and> astype_float to_float column = Inr hs
          \<and> length (tl matrix) \<noteq> length (points rwStream) \<longrightarrow>
        batch_merge to_float cast_undef matrix rwStream = (rwStream, Some LaspyException))"
proof -
  have a: "snd (batch_merge to_float cast_undef matrix rwStream) \<noteq> None \<longrightarrow>
        fst (batch_merge to_float cast_undef matrix rwStream) = rwStream"
    using batch_merge_cases [of to_float cast_undef matrix rwStream] by auto
  have b: "snd (batch_merge to_float cast_undef matrix rwStream) \<noteq> Some AlignmentError"
    using batch_merge_cases [of to_float cast_undef matrix rwStream] by auto
  have c: "length (tl matrix) \<noteq> length (points rwStream) \<longrightarrow>
        fst (batch_merge to_float cast_undef matrix rwStream) = rwStream
        \<and> (snd (batch_merge to_float cast_undef matrix rwStream) = Some IndexError
           \<or> snd (batch_merge to_float cast_undef matrix rwStream) = Some ValueError
           \<or> snd (batch_merge to_float cast_undef matrix rwStream) = Some LaspyException)"
    using batch_merge_cases [of to_float cast_undef matrix rwStream] by auto
  have d: "\<forall>column hs. extract_height matrix ''H2013'' = Inr column
          \<and> astype_float to_float column = Inr hs
          \<and> length (tl matrix) \<noteq> length (points rwStream) \<longrightarrow>
        batch_merge to_float cast_undef matrix rwStream = (rwStream, Some LaspyException)"
    using batch_merge_mismatch by blast
  from a b c d show ?thesis by (intro conjI)
qed

text \<open>
  A reply of three rows for the target of two points is refused by the assignment, and
  a reply without the column fails in the lookup; the target is as it was in both cases.
\<close>

theorem merge_count_mismatch_witness:
  "batch_merge plain_decimal cast_x86 reply3 target2 = (target2, Some LaspyException)
   \<and> snd (batch_merge plain_decimal cast_x86 [[''utm_e'']] target2) = Some IndexError
   \<and> fst (batch_merge plain_decimal cast_x86 [[''utm_e'']] target2) = target2"
proof -
  have col: "extract_height reply3 ''H2013'' = Inr [''0.125'', ''1.5'', ''2.5'']"
    by (rule reply3_column)
  have a: "astype_float plain_decimal [''0.125'', ''1.5'', ''2.5'']
             = Inr [Finite 0.125, Finite 1.5, Finite 2.5]"
    by (simp add: plain_decimal_samples)
  have n: "length (tl reply3) \<noteq> length (points target2)"
    by (simp add: target2_def reply3_def reply2_def)
  have bad: "snd (batch_merge plain_decimal cast_x86 [[''utm_e'']] target2) = Some IndexError"
    by (simp add: batch_merge_def extract_height_def)
  from merge_count_mismatch [of plain_decimal cast_x86 reply3 target2] col a n
  have r3: "batch_merge plain_decimal cast_x86 reply3 target2 = (target2, Some LaspyException)"
    by blast
  from merge_count_mismatch [of plain_decimal cast_x86 "[[''utm_e'']]" target2] bad
  have b: "fst (batch_merge plain_decimal cast_x86 [[''utm_e'']] target2) = target2"
    by simp
  from r3 bad b show ?thesis by simp
qed

text \<open>
  Scenario 4 (two points, three rows) raises no \<open>AlignmentError\<close>: the exception that
  ends the merge is the \<open>LaspyException\<close> of the assignment.
\<close>

theorem merge_count_mismatch_counterexample:
  "length (points target2) = 2 \<and> length (tl reply3) = 3
   \<and> snd (batch_merge plain_decimal cast_x86 reply3 target2) = Some LaspyException
   \<and> snd (batch_merge plain_decimal cast_x86 reply3 target2) \<noteq> Some AlignmentError
   \<and> fst (batch_merge plain_decimal cast_x86 reply3 target2) = target2"
proof -
  have n: "length (points target2) = 2" by (simp add: target2_def)
  have m: "length (tl reply3) = 3" by (simp add: reply3_def reply2_def)
  from n m show ?thesis by (simp add: merge_reply3)
qed

text \<open>
  Claim C4 (non-positive scale), as amended. No operation looks at the scale. Decoding
  gives the float of \<open>r * scale + offset\<close>, the product and the sum each rounded, for
  every scale, zero and negative ones included; encoding gives the float of
  \<open>(v - offset) / scale\<close>, the difference and the quotient each rounded, for every scale
  but zero, and for the scale zero a non-finite float, without an exception; and neither
  \<open>las_to_csv\<close> nor the merge ever raises \<open>ConfigurationError\<close>.
\<close>

theorem scale_not_validated:
  "decode (IntV r) s o' =
     (case binary64 (of_int r * s) of Finite p \<Rightarrow> binary64 (p + o') | NonFinite \<Rightarrow> NonFinite)
   \<and> (s \<noteq> 0 \<longrightarrow> encode (Finite v) s o' =
         (case binary64 (v - o') of Finite d \<Rightarrow> binary64 (d / s) | NonFinite \<Rightarrow> NonFinite))
   \<and> encode (Finite v) 0 o' = NonFinite
   \<and> snd (las_to_csv str inFile) \<noteq> Some ConfigurationError
   \<and> snd (batch_merge to_float cast_undef matrix rwStream) \<noteq> Some ConfigurationError"
proof -
  have a: "snd (las_to_csv str inFile) \<noteq> Some ConfigurationError"
    using las_to_csv_error [of str inFile ConfigurationError] by auto
  have b: "snd (batch_merge to_float cast_undef matrix rwStream) \<noteq> Some ConfigurationError"
    using batch_merge_cases [of to_float cast_undef matrix rwStream] by auto
  from a b show ?thesis
    using decode_int [of r s o'] encode_finite [of s v o'] encode_zero_scale [of "Finite v" o']
    by simp
qed

text \<open>A negative scale and the scale zero.\<close>

theorem scale_not_validated_witness:
  "decode (IntV 1000) (- 0.5) 0 = Finite (- 500)
   \<and> encode (Finite 3) (- 0.5) 0 = Finite (- 6)
   \<and> encode (Finite 3) 0 0 = NonFinite"
proof -
  have h: "(- 0.5 :: real) \<noteq> 0" by simp
  show ?thesis
    using h scale_not_validated [of 1000 "- 0.5" 0 3] scale_not_validated [of 1000 0 0 3]
    by (simp add: sample_floats)
qed

text \<open>
  The claim as stated fails: with the X scale zero the writer's value for a raw \<open>1000\<close> is
  the offset, a number and no \<open>ConfigurationError\<close>; a negative scale decodes and encodes
  to numbers, and the scale zero encodes to a non-finite float.
\<close>

theorem scale_not_validated_counterexample:
  "out_value (open_read_stream
       (scenario2_file\<lparr>header_scale := (0, double_of 0.0001, double_of 0.0001)\<rparr>)) 0
       (IntV 1000) = Inr (FloatV (Finite (double_of 329999.8947)))
   \<and> out_value (open_read_stream
       (scenario2_file\<lparr>header_scale := (0, double_of 0.0001, double_of 0.0001)\<rparr>)) 0
       (IntV 1000) \<noteq> Inl ConfigurationError
   \<and> decode (IntV 1000) (- 0.5) 0 = Finite (- 500)
   \<and> encode (Finite 3) (- 0.5) 0 = Finite (- 6)
   \<and> encode (Finite 3) 0 0 = NonFinite"
proof -
  have o: "binary64 (double_of 329999.8947) = Finite (double_of 329999.8947)"
    unfolding scenario1_floats using binary64_exact [of 5669355021679775 "- 34"] by simp
  have d: "decode (IntV 1000) 0 (double_of 329999.8947) = Finite (double_of 329999.8947)"
    using o by (simp add: decode_def binary64_zero)
  from d show ?thesis
    by (simp add: out_value_def open_read_stream_def scenario2_file_def decode_def encode_def
          sample_floats)
qed

section \<open>Properties of the single-point call\<close>

lemma override_case:
  "(if a \<noteq> None then the a else d) = (case a of None \<Rightarrow> d | Some v \<Rightarrow> v)"
  by (cases a) simp_all

lemma pair_case:
  "(case g of None \<Rightarrow> (s, a) | Some t \<Rightarrow> (s, b t))
     = (s, case g of None \<Rightarrow> a | Some t \<Rightarrow> b t)"
  by (cases g) simp_all

lemma single_point_state:
  "fst (single_point http_get self x y z None p l c w m f e) =
     self\<lparr>projection := (case p of None \<Rightarrow> projection self | Some v \<Rightarrow> v),
          lang := (case l of None \<Rightarrow> lang self | Some v \<Rightarrow> v),
          conversion := (case c of None \<Rightarrow> conversion self | Some v \<Rightarrow> v),
          westpos := (case w of None \<Rightarrow> westpos self | Some v \<Rightarrow> v),
          model := (case m of None \<Rightarrow> model self | Some v \<Rightarrow> v),
          frame := (case f of None \<Rightarrow> frame self | Some v \<Rightarrow> v),
          epoch := (case e of None \<Rightarrow> epoch self | Some v \<Rightarrow> v)\<rparr>"
  unfolding single_point_def Let_def override_case
  by (simp add: pair_case cong: option.case_cong)

lemma single_point_outcome:
  "snd (single_point http_get self x y z None p l c w m f e) =
     (case http_get (service_url self)
             (single_point_data (fst (single_point http_get self x y z None p l c w m f e))
                x y z) of
        None \<Rightarrow> Inl RequestException | Some t \<Rightarrow> Inr t)"
  unfolding single_point_state
  unfolding single_point_def Let_def override_case
  by (simp add: pair_case cong: option.case_cong)

lemma single_point_data_sent:
  "single_point_data self x y z ''proj'' = Some (StrV (projection self))
 \<and> single_point_data self x y z ''lang'' = Some (StrV (lang self))
 \<and> single_point_data self x y z ''conversion'' = Some (StrV (conversion self))
 \<and> single_point_data self x y z ''westpos'' = Some (StrV (westpos self))
 \<and> single_point_data self x y z ''model'' = Some (StrV (model self))
 \<and> single_point_data self x y z ''frame'' = Some (StrV (frame self))
 \<and> single_point_data self x y z ''epoch'' = Some (StrV (epoch self))"
  by (simp add: single_point_data_def Let_def)

text \<open>
  Claim C10 (overrides persist). When a call of \<open>single_point\<close> returns, each of the
  fields projection, lang, conversion, westpos, model, frame and epoch holds the value of
  its keyword argument where one was given and its previous value where none was; the
  other fields are unchanged. A later call that gives no keyword argument leaves the
  object as it is and sends exactly these values to the service.
\<close>

theorem single_point_overrides:
  assumes ret: "single_point http_get self x y z type' p l c w m f e = (self', Inr reply)"
  shows "projection self' = (case p of Some v \<Rightarrow> v | None \<Rightarrow> projection self)
       \<and> lang self' = (case l of Some v \<Rightarrow> v | None \<Rightarrow> lang self)
       \<and> conversion self' = (case c of Some v \<Rightarrow> v | None \<Rightarrow> conversion self)
       \<and> westpos self' = (case w of Some v \<Rightarrow> v | None \<Rightarrow> westpos self)
       \<and> model self' = (case m of Some v \<Rightarrow> v | None \<Rightarrow> model self)
       \<and> frame self' = (case f of Some v \<Rightarrow> v | None \<Rightarrow> frame self)
       \<and> epoch self' = (case e of Some v \<Rightarrow> v | None \<Rightarrow> epoch self)
       \<and> service_url self' = service_url self \<and> tocsv self' = tocsv self
       \<and> (\<forall>http_get2 x2 y2 z2.
             fst (single_point http_get2 self' x2 y2 z2
                    None None None None None None None None) = self'
           \<and> snd (single_point http_get2 self' x2 y2 z2
                    None None None None None None None None) =
               (case http_get2 (service_url self') (single_point_data self' x2 y2 z2) of
                  None \<Rightarrow> Inl RequestException | Some t \<Rightarrow> Inr t)
           \<and> single_point_data self' x2 y2 z2 ''proj'' = Some (StrV (projection self'))
           \<and> single_point_data self' x2 y2 z2 ''lang'' = Some (StrV (lang self'))
           \<and> single_point_data self' x2 y2 z2 ''conversion'' = Some (StrV (conversion self'))
           \<and> single_point_data self' x2 y2 z2 ''westpos'' = Some (StrV (westpos self'))
           \<and> single_point_data self' x2 y2 z2 ''model'' = Some (StrV (model self'))
           \<and> single_point_data self' x2 y2 z2 ''frame'' = Some (StrV (frame self'))
           \<and> single_point_data self' x2 y2 z2 ''epoch'' = Some (StrV (epoch self')))"
proof -
  from ret have t: "type' = None"
    by (cases type') (simp_all add: single_point_def)
  let ?s = "self\<lparr>projection := (case p of None \<Rightarrow> projection self | Some v \<Rightarrow> v),
                 lang := (case l of None \<Rightarrow> lang self | Some v \<Rightarrow> v),
                 conversion := (case c of None \<Rightarrow> conversion self | Some v \<Rightarrow> v),
                 westpos := (case w of None \<Rightarrow> westpos self | Some v \<Rightarrow> v),
                 model := (case m of None \<Rightarrow> model self | Some v \<Rightarrow> v),
                 frame := (case f of None \<Rightarrow> frame self | Some v \<Rightarrow> v),
                 epoch := (case e of None \<Rightarrow> epoch self | Some v \<Rightarrow> v)\<rparr>"
  have "fst (single_point http_get self x y z None p l c w m f e) = ?s"
    by (simp add: single_point_state)
  with ret t have s: "self' = ?s" by simp
  have fields: "projection self' = (case p of Some v \<Rightarrow> v | None \<Rightarrow> projection self)
       \<and> lang self' = (case l of Some v \<Rightarrow> v | None \<Rightarrow> lang self)
       \<and> conversion self' = (case c of Some v \<Rightarrow> v | None \<Rightarrow> conversion self)
       \<and> westpos self' = (case w of Some v \<Rightarrow> v | None \<Rightarrow> westpos self)
       \<and> model self' = (case m of Some v \<Rightarrow> v | None \<Rightarrow> model self)
       \<and> frame self' = (case f of Some v \<Rightarrow> v | None \<Rightarrow> frame self)
       \<and> epoch self' = (case e of Some v \<Rightarrow> v | None \<Rightarrow> epoch self)
       \<and> service_url self' = service_url self \<and> tocsv self' = tocsv self"
    by (simp add: s)
  have later: "fst (single_point g self' x2 y2 z2 None None None None None None None None) = self'
           \<and> snd (single_point g self' x2 y2 z2 None None None None None None None None) =
               (case g (service_url self') (single_point_data self' x2 y2 z2) of
                  None \<Rightarrow> Inl RequestException | Some t \<Rightarrow> Inr t)" for g x2 y2 z2
    by (simp add: single_point_state single_point_outcome)
  have data: "single_point_data self' x2 y2 z2 ''proj'' = Some (StrV (projection self'))
           \<and> single_point_data self' x2 y2 z2 ''lang'' = Some (StrV (lang self'))
           \<and> single_point_data self' x2 y2 z2 ''conversion'' = Some (StrV (conversion self'))
           \<and> single_point_data self' x2 y2 z2 ''westpos'' = Some (StrV (westpos self'))
           \<and> single_point_data self' x2 y2 z2 ''model'' = Some (StrV (model self'))
           \<and> single_point_data self' x2 y2 z2 ''frame'' = Some (StrV (frame self'))
           \<and> single_point_data self' x2 y2 z2 ''epoch'' = Some (StrV (epoch self'))" for x2 y2 z2
    by (simp add: single_point_data_sent)
  from fields later data show ?thesis by simp
qed

text \<open>
  A call on the service object of the script that overrides the projection and the epoch.
\<close>

theorem single_point_overrides_witness:
  "projection (fst (single_point answering wbservice (IntV 1) (IntV 2) (IntV 3) None
      (Some ''geo'') None None None None None (Some ''2010-01-01''))) = ''geo''
   \<and> epoch (fst (single_point answering wbservice (IntV 1) (IntV 2) (IntV 3) None
      (Some ''geo'') None None None None None (Some ''2010-01-01''))) = ''2010-01-01''
   \<and> lang (fst (single_point answering wbservice (IntV 1) (IntV 2) (IntV 3) None
      (Some ''geo'') None None None None None (Some ''2010-01-01''))) = ''en''
   \<and> model (fst (single_point answering wbservice (IntV 1) (IntV 2) (IntV 3) None
      (Some ''geo'') None None None None None (Some ''2010-01-01''))) = ''HT2_0_CGG2013a''
   \<and> single_point_data (fst (single_point answering wbservice (IntV 1) (IntV 2) (IntV 3) None
      (Some ''geo'') None None None None None (Some ''2010-01-01'')))
        (IntV 4) (IntV 5) (IntV 6) ''proj'' = Some (StrV ''geo'')
   \<and> single_point_data (fst (single_point answering wbservice (IntV 1) (IntV 2) (IntV 3) None
      (Some ''geo'') None None None None None (Some ''2010-01-01'')))
        (IntV 4) (IntV 5) (IntV 6) ''epoch'' = Some (StrV ''2010-01-01'')"
proof -
  let ?r = "single_point answering wbservice (IntV 1) (IntV 2) (IntV 3) None
      (Some ''geo'') None None None None None (Some ''2010-01-01'')"
  have ret: "?r = (fst ?r, Inr ''<response/>'')"
    by (simp add: prod_eq_iff single_point_outcome answering_def)
  from single_point_overrides [OF ret]
  have "projection (fst ?r) = ''geo''" "epoch (fst ?r) = ''2010-01-01''"
       "lang (fst ?r) = lang wbservice" "model (fst ?r) = model wbservice"
       "single_point_data (fst ?r) (IntV 4) (IntV 5) (IntV 6) ''proj''
          = Some (StrV (projection (fst ?r)))"
       "single_point_data (fst ?r) (IntV 4) (IntV 5) (IntV 6) ''epoch''
          = Some (StrV (epoch (fst ?r)))"
    by simp_all
  then show ?thesis by (simp add: wbservice_def WebService_def setConversionType_def)
qed

end
